theory Spec2Isabelle
  imports Main "HOL-Library.Sublist" "HOL-Library.Word"
begin

section \<open>Strings\<close>

text \<open>
  A Go string is a sequence of bytes; it is modelled as a \<^typ>\<open>string\<close> (a list of
  8-bit characters). The functions of package \<open>strings\<close> that the client calls are
  written out on bytes.
\<close>

text \<open>
  \<open>unicode.IsSpace\<close>: the white space code points, each as its UTF-8 encoding
  (U+0009 .. U+000D, U+0020, U+0085, U+00A0, U+1680, U+2000 .. U+200A, U+2028, U+2029,
  U+202F, U+205F, U+3000).
\<close>

definition spaceRunes :: "string list" where
  "spaceRunes =
     [[CHR 0x09], [CHR 0x0A], [CHR 0x0B], [CHR 0x0C], [CHR 0x0D], [CHR 0x20],
      [CHR 0xC2, CHR 0x85], [CHR 0xC2, CHR 0xA0],
      [CHR 0xE1, CHR 0x9A, CHR 0x80],
      [CHR 0xE2, CHR 0x80, CHR 0x80], [CHR 0xE2, CHR 0x80, CHR 0x81],
      [CHR 0xE2, CHR 0x80, CHR 0x82], [CHR 0xE2, CHR 0x80, CHR 0x83],
      [CHR 0xE2, CHR 0x80, CHR 0x84], [CHR 0xE2, CHR 0x80, CHR 0x85],
      [CHR 0xE2, CHR 0x80, CHR 0x86], [CHR 0xE2, CHR 0x80, CHR 0x87],
      [CHR 0xE2, CHR 0x80, CHR 0x88], [CHR 0xE2, CHR 0x80, CHR 0x89],
      [CHR 0xE2, CHR 0x80, CHR 0x8A],
      [CHR 0xE2, CHR 0x80, CHR 0xA8], [CHR 0xE2, CHR 0x80, CHR 0xA9],
      [CHR 0xE2, CHR 0x80, CHR 0xAF],
      [CHR 0xE2, CHR 0x81, CHR 0x9F],
      [CHR 0xE3, CHR 0x80, CHR 0x80]]"

text \<open>The number of bytes of the white space rune a string starts (ends) with; 0 if none.\<close>

definition leadingSpace :: "string \<Rightarrow> nat" where
  "leadingSpace s = (case find (\<lambda>r. prefix r s) spaceRunes of None \<Rightarrow> 0 | Some r \<Rightarrow> length r)"

definition trailingSpace :: "string \<Rightarrow> nat" where
  "trailingSpace s = (case find (\<lambda>r. suffix r s) spaceRunes of None \<Rightarrow> 0 | Some r \<Rightarrow> length r)"

function trimLeft :: "string \<Rightarrow> string" where
  "trimLeft s = (if leadingSpace s = 0 then s else trimLeft (drop (leadingSpace s) s))"
  by pat_completeness auto
termination
proof (relation "measure length")
  show "wf (measure length)" by simp
next
  fix s :: string
  assume a: "leadingSpace s \<noteq> 0"
  have "s \<noteq> []"
  proof
    assume "s = []"
    then have "leadingSpace s = 0"
      by (simp add: leadingSpace_def spaceRunes_def)
    with a show False by simp
  qed
  with a show "(drop (leadingSpace s) s, s) \<in> measure length" by simp
qed

function trimRight :: "string \<Rightarrow> string" where
  "trimRight s = (if trailingSpace s = 0 then s else trimRight (take (length s - trailingSpace s) s))"
  by pat_completeness auto
termination
proof (relation "measure length")
  show "wf (measure length)" by simp
next
  fix s :: string
  assume a: "trailingSpace s \<noteq> 0"
  have "s \<noteq> []"
  proof
    assume "s = []"
    then have "trailingSpace s = 0"
      by (simp add: trailingSpace_def spaceRunes_def)
    with a show False by simp
  qed
  with a show "(take (length s - trailingSpace s) s, s) \<in> measure length" by simp
qed

declare trimLeft.simps [simp del] trimRight.simps [simp del]

text \<open>\<open>strings.TrimSpace\<close>: leading white space is cut first, then trailing white space.\<close>

definition TrimSpace :: "string \<Rightarrow> string" where
  "TrimSpace s = trimRight (trimLeft s)"

text \<open>\<open>strings.Contains s sub\<close>.\<close>

fun Contains :: "string \<Rightarrow> string \<Rightarrow> bool" where
  "Contains [] sub = (sub = [])"
| "Contains (x # xs) sub = (prefix sub (x # xs) \<or> Contains xs sub)"

text \<open>
  \<open>strings.ReplaceAll s old new\<close> for a non-empty \<open>old\<close>: the non-overlapping
  occurrences, from the left. (The client never passes an empty \<open>old\<close>; the model leaves
  the string unchanged there.)
\<close>

function ReplaceAll :: "string \<Rightarrow> string \<Rightarrow> string \<Rightarrow> string" where
  "ReplaceAll [] old new = []"
| "ReplaceAll (x # xs) old new =
     (if old \<noteq> [] \<and> prefix old (x # xs)
      then new @ ReplaceAll (drop (length old) (x # xs)) old new
      else x # ReplaceAll xs old new)"
  by pat_completeness auto
termination
  by (relation "measure (\<lambda>(s, old, new). length s)") auto

text \<open>\<open>strings.Split s sep\<close> for a one-byte separator: the pieces between the separators.\<close>

fun Split :: "string \<Rightarrow> char \<Rightarrow> string list" where
  "Split [] c = [[]]"
| "Split (x # xs) c =
     (if x = c then [] # Split xs c
      else (case Split xs c of p # ps \<Rightarrow> (x # p) # ps | [] \<Rightarrow> [[x]]))"

text \<open>
  \<open>strings.ToLower\<close> on ASCII: the letters A to Z are mapped to a to z. Go maps the
  letters beyond ASCII by the Unicode case tables, which are data of the Go library; the
  functions below that lower a string take the case mapping as the parameter \<open>lower\<close>,
  and \<open>asciiLower\<close> is that mapping on ASCII text.
\<close>

definition lowerChar :: "char \<Rightarrow> char" where
  "lowerChar c =
     (let n = (of_char c :: nat) in if 65 \<le> n \<and> n \<le> 90 then char_of (n + 32) else c)"

definition asciiLower :: "string \<Rightarrow> string" where
  "asciiLower s = map lowerChar s"

section \<open>Regular expressions\<close>

text \<open>
  The patterns the client compiles are sequences of literal bytes, of starred or plussed
  byte classes, and of the end anchor. Package \<open>regexp\<close> returns the match a
  backtracking search finds first (leftmost-first, greedy repetition); \<open>match_here\<close>
  is that search at the head of a string and returns what is left after the match.
\<close>

datatype cls = In "char list" | NotIn "char list"

datatype item = Lit char | Star cls | Plus cls | End

fun cls_has :: "cls \<Rightarrow> char \<Rightarrow> bool" where
  "cls_has (In cs) c = (c \<in> set cs)"
| "cls_has (NotIn cs) c = (c \<notin> set cs)"

function match_here :: "item list \<Rightarrow> string \<Rightarrow> string option" where
  "match_here [] s = Some s"
| "match_here (Lit c # r) [] = None"
| "match_here (Lit c # r) (x # xs) = (if x = c then match_here r xs else None)"
| "match_here (End # r) s = (if s = [] then match_here r s else None)"
| "match_here (Star k # r) [] = match_here r []"
| "match_here (Star k # r) (x # xs) =
     (if cls_has k x
      then (case match_here (Star k # r) xs of Some t \<Rightarrow> Some t | None \<Rightarrow> match_here r (x # xs))
      else match_here r (x # xs))"
| "match_here (Plus k # r) [] = None"
| "match_here (Plus k # r) (x # xs) = (if cls_has k x then match_here (Star k # r) xs else None)"
  by pat_completeness auto
termination
  by (relation "measures [\<lambda>(r, s). length s, \<lambda>(r, s). length r]") auto

definition lits :: "string \<Rightarrow> item list" where
  "lits s = map Lit s"

text \<open>\<open>re.MatchString s\<close> for a pattern that starts with \<open>^\<close>: a match at the head.\<close>

definition MatchString :: "item list \<Rightarrow> string \<Rightarrow> bool" where
  "MatchString re s = (match_here re s \<noteq> None)"

text \<open>
  \<open>re.ReplaceAllString s repl\<close> for a pattern that matches no empty string and a
  replacement without \<open>$\<close>: the leftmost match is replaced and the search goes on
  behind it.
\<close>

function ReplaceAllString :: "item list \<Rightarrow> string \<Rightarrow> string \<Rightarrow> string" where
  "ReplaceAllString re [] repl = []"
| "ReplaceAllString re (x # xs) repl =
     (case match_here re (x # xs) of
        None \<Rightarrow> x # ReplaceAllString re xs repl
      | Some t \<Rightarrow>
          if length t < length (x # xs) then repl @ ReplaceAllString re t repl
          else x # ReplaceAllString re xs repl)"
  by pat_completeness auto
termination
  by (relation "measure (\<lambda>(re, s, repl). length s)") auto

section \<open>The sanitizer\<close>

definition dquote :: char where
  "dquote = CHR 0x22"

text \<open>\<open><span[^>]*class="[^"]*"[^>]*>\<close>\<close>

definition re1 :: "item list" where
  "re1 = lits ''<span'' @ [Star (NotIn ''>'')] @ lits ''class='' @ [Lit dquote]
         @ [Star (NotIn [dquote]), Lit dquote, Star (NotIn ''>''), Lit CHR ''>'']"

text \<open>\<open><a[^>]*>\<close>\<close>

definition re2 :: "item list" where
  "re2 = lits ''<a'' @ [Star (NotIn ''>''), Lit CHR ''>'']"

text \<open>\<open><[^>]*>\<close>\<close>

definition re3 :: "item list" where
  "re3 = [Lit CHR ''<'', Star (NotIn ''>''), Lit CHR ''>'']"

text \<open>\<open>\s+\<close>: the class \<open>\s\<close> of package \<open>regexp\<close> is tab, newline, form feed, carriage return, space.\<close>

definition reSpace :: "char list" where
  "reSpace = [CHR 0x09, CHR 0x0A, CHR 0x0C, CHR 0x0D, CHR 0x20]"

definition reSpaces :: "item list" where
  "reSpaces = [Plus (In reSpace)]"

definition cleanHTML :: "string \<Rightarrow> string" where
  "cleanHTML htmlContent =
     (if htmlContent = [] then []
      else
        let cleanText = htmlContent;
            cleanText = ReplaceAllString re1 cleanText [];
            cleanText = ReplaceAll cleanText ''</span>'' [];
            cleanText = ReplaceAllString re2 cleanText [];
            cleanText = ReplaceAll cleanText ''</a>'' [];
            cleanText = ReplaceAll cleanText ''<strong>'' [];
            cleanText = ReplaceAll cleanText ''</strong>'' [];
            cleanText = ReplaceAllString re3 cleanText [];
            cleanText = TrimSpace cleanText;
            cleanText = ReplaceAllString reSpaces cleanText '' ''
        in cleanText)"

section \<open>The scorecard extractor\<close>

text \<open>
  Modelled from the spec: the declarations of package \<open>models\<close> are not among the
  sources. The records below have the fields that the spec's data model lists and that
  the client assigns; every field is a display string.
\<close>

record BatsmanInfo =
  Name :: string
  Status :: string
  Runs :: string
  Balls :: string
  Fours :: string
  Sixes :: string
  StrikeRate :: string

record BowlerInfo =
  BowlerName :: string
  Overs :: string
  Maidens :: string
  BowlerRuns :: string
  Wickets :: string
  NoBalls :: string
  Wides :: string
  Economy :: string

record MatchInningsInfo =
  BatsmanDetails :: "BatsmanInfo list"
  BowlerDetails :: "BowlerInfo list"

text \<open>
  An element of a parsed document, as the client reads it through goquery: its text
  content (\<open>Text()\<close>), its inner markup (\<open>Html()\<close>) and its attributes (\<open>Attr(name)\<close>).
  A row is the list of the \<open>div\<close> elements below one \<open>div.cb-scrd-itms\<close>, in document
  order.
\<close>

record element =
  Text :: string
  Html :: string
  Attr :: "string \<rightharpoonup> string"

type_synonym row = "element list"

definition battingStatuses :: "string list" where
  "battingStatuses =
     [''not out'', ''c '', ''b '', ''lbw'', ''run out'', ''st '', ''hit wicket'',
      ''obstructing'', ''handled'', ''timed out'', ''*'']"

definition digits :: "char list" where
  "digits = ''0123456789''"

text \<open>\<open>^\d+\.\d+$\<close>\<close>

definition oversPattern :: "item list" where
  "oversPattern = [Plus (In digits), Lit CHR ''.'', Plus (In digits), End]"

definition skipRows :: "string list" where
  "skipRows =
     [''extras'', ''total'', ''fall of wickets'', ''bowler'', ''overs'', ''maidens'',
      ''runs'', ''wickets'', ''economy'', ''nb'', ''wd'']"

definition isBattingRow :: "(string \<Rightarrow> string) \<Rightarrow> string \<Rightarrow> string \<Rightarrow> nat \<Rightarrow> bool" where
  "isBattingRow lower firstCol secondCol divCount =
     (if MatchString oversPattern secondCol then False
      else if list_ex (\<lambda>status. Contains (lower secondCol) status) battingStatuses then True
      else if list_ex (\<lambda>skip. Contains (lower firstCol) skip \<or> Contains (lower secondCol) skip) skipRows
        then False
      else if 6 \<le> divCount \<and> divCount \<le> 8 \<and> firstCol \<noteq> [] then True
      else False)"

definition emptyBatsman :: BatsmanInfo where
  "emptyBatsman =
     \<lparr>Name = [], Status = [], Runs = [], Balls = [], Fours = [], Sixes = [], StrikeRate = []\<rparr>"

definition emptyBowler :: BowlerInfo where
  "emptyBowler =
     \<lparr>BowlerName = [], Overs = [], Maidens = [], BowlerRuns = [], Wickets = [], NoBalls = [],
      Wides = [], Economy = []\<rparr>"

definition emptyInnings :: MatchInningsInfo where
  "emptyInnings = \<lparr>BatsmanDetails = [], BowlerDetails = []\<rparr>"

text \<open>The body of the batting \<open>divs.Each\<close>: the switch on the index \<open>j\<close> of the cell.\<close>

definition batsmanCell :: "nat \<Rightarrow> BatsmanInfo \<Rightarrow> nat \<times> element \<Rightarrow> BatsmanInfo" where
  "batsmanCell divCount batsman jd =
     (let j = fst jd; text = TrimSpace (Text (snd jd)); html = Html (snd jd) in
      if j = 0 then batsman\<lparr>Name := text\<rparr>
      else if j = 1 then batsman\<lparr>Status := cleanHTML html\<rparr>
      else if j = 2 then batsman\<lparr>Runs := cleanHTML html\<rparr>
      else if j = 3 then batsman\<lparr>Balls := cleanHTML html\<rparr>
      else if j = 4 then batsman\<lparr>Fours := cleanHTML html\<rparr>
      else if j = 5 then batsman\<lparr>Sixes := cleanHTML html\<rparr>
      else if j = 6 then (if j < divCount then batsman\<lparr>StrikeRate := cleanHTML html\<rparr> else batsman)
      else batsman)"

text \<open>The body of the bowling \<open>divs.Each\<close>.\<close>

definition bowlerCell :: "nat \<Rightarrow> BowlerInfo \<Rightarrow> nat \<times> element \<Rightarrow> BowlerInfo" where
  "bowlerCell divCount bowler jd =
     (let j = fst jd; text = TrimSpace (Text (snd jd)); html = Html (snd jd) in
      if j = 0 then bowler\<lparr>BowlerName := text\<rparr>
      else if j = 1 then bowler\<lparr>Overs := cleanHTML html\<rparr>
      else if j = 2 then bowler\<lparr>Maidens := cleanHTML html\<rparr>
      else if j = 3 then bowler\<lparr>BowlerRuns := cleanHTML html\<rparr>
      else if j = 4 then bowler\<lparr>Wickets := cleanHTML html\<rparr>
      else if j = 5 then bowler\<lparr>NoBalls := cleanHTML html\<rparr>
      else if j = 6 then bowler\<lparr>Wides := cleanHTML html\<rparr>
      else if j = 7 then (if j < divCount then bowler\<lparr>Economy := cleanHTML html\<rparr> else bowler)
      else bowler)"

definition parseBatsman :: "row \<Rightarrow> BatsmanInfo" where
  "parseBatsman divs = foldl (batsmanCell (length divs)) emptyBatsman (enumerate 0 divs)"

definition parseBowler :: "row \<Rightarrow> BowlerInfo" where
  "parseBowler divs = foldl (bowlerCell (length divs)) emptyBowler (enumerate 0 divs)"

text \<open>The body of the outer \<open>Each\<close> of \<open>parseInningsInfo\<close>: one \<open>div.cb-scrd-itms\<close>.\<close>

definition parseRow :: "(string \<Rightarrow> string) \<Rightarrow> MatchInningsInfo \<Rightarrow> row \<Rightarrow> MatchInningsInfo" where
  "parseRow lower innings divs =
     (let divCount = length divs in
      if 6 \<le> divCount then
        let firstCol = (if 0 < divCount then TrimSpace (Text (divs ! 0)) else []);
            secondCol = (if 1 < divCount then TrimSpace (Text (divs ! 1)) else [])
        in
          if isBattingRow lower firstCol secondCol divCount then
            let batsman = parseBatsman divs in
            if Name batsman \<noteq> []
               \<and> \<not> Contains (lower (Name batsman)) ''extras''
               \<and> \<not> Contains (lower (Name batsman)) ''total''
               \<and> \<not> Contains (lower (Name batsman)) ''fall of wickets''
            then innings\<lparr>BatsmanDetails := BatsmanDetails innings @ [batsman]\<rparr>
            else innings
          else
            let bowler = parseBowler divs in
            if BowlerName bowler \<noteq> []
            then innings\<lparr>BowlerDetails := BowlerDetails innings @ [bowler]\<rparr>
            else innings
      else innings)"

text \<open>
  \<open>parseInningsInfo\<close>, on the rows that \<open>inningsDiv.Find("div.cb-scrd-itms")\<close> selects.
\<close>

definition parseInningsInfo :: "(string \<Rightarrow> string) \<Rightarrow> row list \<Rightarrow> MatchInningsInfo" where
  "parseInningsInfo lower rows = foldl (parseRow lower) emptyInnings rows"

text \<open>A cell that holds plain text only: its markup is its text.\<close>

definition plain :: "string \<Rightarrow> element" where
  "plain s = \<lparr>Text = s, Html = s, Attr = Map.empty\<rparr>"

section \<open>The environment of the client\<close>

text \<open>
  A Go error value. \<open>Wrapped msg e\<close> is \<open>fmt.Errorf(msg + ": %v", e)\<close>.
\<close>

datatype error = Transport string | Decode string | Parse string | Wrapped string error

text \<open>
  A parsed document, as the client queries it: the anchors that
  \<open>Find("nav.cb-mat-mnu a")\<close> selects, and for an index \<open>i\<close> the rows below
  \<open>div[id="innings_i"]\<close> (\<open>None\<close> when the selection is empty).
\<close>

record document =
  navAnchors :: "element list"
  inningsDiv :: "nat \<rightharpoonup> row list"

text \<open>
  What the client does not decide itself is the parameter \<open>env\<close>: the outcome of the
  \<open>n\<close>-th HTTP GET of the process, the JSON decoder and the markup parser on a response
  body, the case mapping of \<open>strings.ToLower\<close>, by how long the \<open>n\<close>-th
  \<open>time.Sleep\<close> oversleeps and how long the \<open>n\<close>-th GET takes (both in nanoseconds,
  never negative). \<open>'b\<close> is the type of a response body, \<open>'j\<close> the type
  \<open>models.CricbuzzJSON\<close>.
\<close>

record ('b, 'j) env =
  httpGet :: "nat \<Rightarrow> string \<Rightarrow> error + 'b"
  jsonDecode :: "'b \<Rightarrow> error + 'j"
  newDocument :: "'b \<Rightarrow> error + document"
  toLower :: "string \<Rightarrow> string"
  oversleep :: "nat \<Rightarrow> nat"
  latency :: "nat \<Rightarrow> nat"

text \<open>
  The state outside the application: the clock (an instant is a number of nanoseconds),
  the package variable \<open>lastRequest\<close> and the number of GETs issued so far.
\<close>

record world =
  now :: int
  lastRequest :: int
  requests :: nat

definition requestInterval :: int where
  "requestInterval = 1000000000"

text \<open>
  \<open>makeRequest\<close>: \<open>time.Sleep d\<close> returns at once when \<open>d \<le> 0\<close> and not before
  \<open>d\<close> has passed otherwise; \<open>lastRequest\<close> is set before the GET is issued.
\<close>

definition makeRequest :: "('b, 'j) env \<Rightarrow> string \<Rightarrow> world \<Rightarrow> (error + 'b) \<times> world" where
  "makeRequest env url w =
     (let n = requests w;
          d = lastRequest w + requestInterval - now w;
          woke = now w + (if 0 < d then d else 0) + int (oversleep env n);
          w = w\<lparr>now := woke, lastRequest := woke\<rparr>
      in (httpGet env n url, w\<lparr>now := now w + int (latency env n), requests := n + 1\<rparr>))"


section \<open>The resolver and the discovery\<close>

text \<open>
  Modelled from the spec: \<open>models.MatchInfo\<close> is declared in package \<open>models\<close>, which
  is not among the sources. The record has the fields the client and the application
  assign; the summary document \<open>CricbuzzInfo\<close> is kept abstract.
\<close>

record 'j MatchInfo =
  CricbuzzMatchID :: "32 word"
  CricbuzzMatchAPILink :: string
  MatchShortName :: string
  CricbuzzInfo :: 'j
  Scorecard :: "MatchInningsInfo list"
  LastUpdated :: int

definition CricbuzzMatchAPI :: string where
  "CricbuzzMatchAPI = ''https://www.cricbuzz.com/api/mcenter/comm/''"

definition CricbuzzMatchScorecardAPI :: string where
  "CricbuzzMatchScorecardAPI = ''https://www.cricbuzz.com/api/mcenter/scorecard/''"

definition CricbuzzURL :: string where
  "CricbuzzURL = ''https://www.cricbuzz.com''"

text \<open>The verb \<open>%d\<close> of \<open>fmt.Sprintf\<close> on an unsigned number.\<close>

function decimal :: "nat \<Rightarrow> string" where
  "decimal n =
     (if n < 10 then [char_of (48 + n)] else decimal (n div 10) @ [char_of (48 + n mod 10)])"
  by pat_completeness auto
termination
  by (relation "measure id") auto

declare decimal.simps [simp del]

text \<open>
  \<open>strconv.ParseUint s 10 32\<close>: a non-empty string of decimal digits whose value fits
  32 bits; anything else is an error.
\<close>

definition ParseUint32 :: "string \<Rightarrow> 32 word option" where
  "ParseUint32 s =
     (if s = [] \<or> \<not> list_all (\<lambda>c. c \<in> set digits) s then None
      else
        let n = foldl (\<lambda>acc c. 10 * acc + (of_char c - 48)) (0::nat) s
        in if n < 2 ^ 32 then Some (word_of_nat n) else None)"

text \<open>The loop of \<open>GetScorecard\<close> over the innings 1 to 4.\<close>

definition scorecardOf :: "(string \<Rightarrow> string) \<Rightarrow> document \<Rightarrow> MatchInningsInfo list" where
  "scorecardOf lower doc =
     concat (map (\<lambda>i. case inningsDiv doc i of
                          None \<Rightarrow> []
                        | Some rows \<Rightarrow> [parseInningsInfo lower rows]) [1, 2, 3, 4])"

definition GetScorecard ::
  "('b, 'j) env \<Rightarrow> 32 word \<Rightarrow> world \<Rightarrow> (error + MatchInningsInfo list) \<times> world" where
  "GetScorecard env matchID w =
     (let url = CricbuzzMatchScorecardAPI @ decimal (unat matchID);
          (resp, w) = makeRequest env url w
      in case resp of
           Inl err \<Rightarrow> (Inl (Wrapped ''failed to fetch scorecard'' err), w)
         | Inr body \<Rightarrow>
             (case newDocument env body of
                Inl err \<Rightarrow> (Inl (Wrapped ''failed to parse scorecard HTML'' err), w)
              | Inr doc \<Rightarrow> (Inr (scorecardOf (toLower env) doc), w)))"

definition GetMatchInfo ::
  "('b, 'j) env \<Rightarrow> 32 word \<Rightarrow> world \<Rightarrow> (error + 'j MatchInfo) \<times> world" where
  "GetMatchInfo env matchID w =
     (let url = CricbuzzMatchAPI @ decimal (unat matchID);
          (resp, w) = makeRequest env url w
      in case resp of
           Inl err \<Rightarrow> (Inl (Wrapped ''failed to fetch match info'' err), w)
         | Inr body \<Rightarrow>
             (case jsonDecode env body of
                Inl err \<Rightarrow> (Inl (Wrapped ''failed to decode JSON'' err), w)
              | Inr cricbuzzJSON \<Rightarrow>
                  let (sc, w) = GetScorecard env matchID w;
                      scorecard = (case sc of Inl err \<Rightarrow> [] | Inr scorecard \<Rightarrow> scorecard)
                  in (Inr \<lparr>CricbuzzMatchID = matchID,
                           CricbuzzMatchAPILink = url,
                           MatchShortName = [],
                           CricbuzzInfo = cricbuzzJSON,
                           Scorecard = scorecard,
                           LastUpdated = 0\<rparr>, w)))"

text \<open>
  The body of the \<open>Each\<close> of \<open>GetAllLiveMatches\<close>: one anchor of the navigation menu.
  A \<open>return\<close> inside the closure goes on with the next anchor.
\<close>

definition liveAnchor ::
  "('b, 'j) env \<Rightarrow> 'j MatchInfo list \<times> world \<Rightarrow> element \<Rightarrow> 'j MatchInfo list \<times> world" where
  "liveAnchor env mw s =
     (let matches = fst mw; w = snd mw; text = TrimSpace (Text s) in
      if text = [] \<or> text = ''MATCHES'' then (matches, w)
      else
        let parts = Split text CHR ''-'' in
        if 2 \<le> length parts \<and> TrimSpace (parts ! 1) = ''Live'' then
          (case Attr s ''href'' of
             None \<Rightarrow> (matches, w)
           | Some href \<Rightarrow>
               let pathParts = Split href CHR ''/'' in
               if length pathParts < 3 then (matches, w)
               else
                 (case ParseUint32 (pathParts ! 2) of
                    None \<Rightarrow> (matches, w)
                  | Some matchID \<Rightarrow>
                      (case GetMatchInfo env matchID w of
                         (Inl err, w) \<Rightarrow> (matches, w)
                       | (Inr matchInfo, w) \<Rightarrow>
                           (matches @ [matchInfo\<lparr>MatchShortName := TrimSpace (parts ! 0)\<rparr>], w))))
        else (matches, w))"

definition GetAllLiveMatches ::
  "('b, 'j) env \<Rightarrow> world \<Rightarrow> (error + 'j MatchInfo list) \<times> world" where
  "GetAllLiveMatches env w =
     (let (resp, w) = makeRequest env CricbuzzURL w
      in case resp of
           Inl err \<Rightarrow> (Inl (Wrapped ''failed to fetch cricbuzz homepage'' err), w)
         | Inr body \<Rightarrow>
             (case newDocument env body of
                Inl err \<Rightarrow> (Inl (Wrapped ''failed to parse HTML'' err), w)
              | Inr doc \<Rightarrow>
                  let (matches, w) = foldl (liveAnchor env) ([], w) (navAnchors doc)
                  in (Inr matches, w)))"

section \<open>The application\<close>

text \<open>The application's state is its snapshot \<open>Matches\<close>; the client holds no state.\<close>

record 'j App =
  Matches :: "'j MatchInfo list"

text \<open>
  \<open>UpdateMatches\<close> returns its error (\<open>None\<close> for \<open>nil\<close>), the application after the
  call and the world after the call. \<open>time.Now()\<close> reads the clock.
\<close>

definition UpdateMatches ::
  "('b, 'j) env \<Rightarrow> 'j App \<Rightarrow> world \<Rightarrow> error option \<times> 'j App \<times> world" where
  "UpdateMatches env a w =
     (if length (Matches a) = 1 then
        (case GetMatchInfo env (CricbuzzMatchID (Matches a ! 0)) w of
           (Inl err, w) \<Rightarrow> (Some err, a, w)
         | (Inr matchInfo, w) \<Rightarrow>
             let matchInfo = matchInfo\<lparr>MatchShortName := MatchShortName (Matches a ! 0)\<rparr>;
                 matchInfo = matchInfo\<lparr>LastUpdated := now w\<rparr>
             in (None, a\<lparr>Matches := (Matches a)[0 := matchInfo]\<rparr>, w))
      else
        (case GetAllLiveMatches env w of
           (Inl err, w) \<Rightarrow> (Some err, a, w)
         | (Inr matches, w) \<Rightarrow>
             (None, a\<lparr>Matches := map (\<lambda>m. m\<lparr>LastUpdated := now w\<rparr>) matches\<rparr>, w)))"

section \<open>Auxiliary notions\<close>

text \<open>A string in which no \<open><\<close> is followed, anywhere later, by a \<open>>\<close>: it holds no tag.\<close>

primrec tagfree :: "string \<Rightarrow> bool" where
  "tagfree [] = True"
| "tagfree (x # xs) = ((x = CHR ''<'' \<longrightarrow> CHR ''>'' \<notin> set xs) \<and> tagfree xs)"

text \<open>A pattern that starts with the literal \<open><\<close> and ends with the literal \<open>>\<close>.\<close>

definition tagre :: "item list \<Rightarrow> bool" where
  "tagre re = (\<exists>r. re = Lit CHR ''<'' # r @ [Lit CHR ''>''])"

text \<open>The bytes of the class \<open>\s\<close>.\<close>

definition isW :: "char \<Rightarrow> bool" where
  "isW c = (c \<in> set reSpace)"


section \<open>An example environment\<close>

text \<open>
  An environment for concrete runs: the second GET of the process (number 1) fails, every
  other GET returns its URL as the body; the homepage shows four anchors, every other
  page is a scorecard with one innings; nothing oversleeps and a GET takes no time.
\<close>

definition exampleHomepage :: document where
  "exampleHomepage =
     \<lparr>navAnchors =
        [\<lparr>Text = ''India - Live'', Html = ''India - Live'', Attr = [''href'' \<mapsto> ''/x/123/y'']\<rparr>,
         \<lparr>Text = ''MATCHES'', Html = ''MATCHES'', Attr = Map.empty\<rparr>,
         \<lparr>Text = ''Aus - Result'', Html = ''Aus - Result'', Attr = [''href'' \<mapsto> ''/x/1/y'']\<rparr>,
         \<lparr>Text = ''Eng - Live - day 2'', Html = ''Eng - Live - day 2'', Attr = [''href'' \<mapsto> ''/x/77/y'']\<rparr>],
      inningsDiv = Map.empty\<rparr>"

definition exampleScorecard :: document where
  "exampleScorecard =
     \<lparr>navAnchors = [],
      inningsDiv = [1 \<mapsto> [map plain [''Kohli'', ''lbw b Khan'', ''10'', ''5'', ''1'', ''0'', ''200.00'']]]\<rparr>"

definition exampleEnv :: "(string, string) env" where
  "exampleEnv =
     \<lparr>httpGet = (\<lambda>n url. if n = 1 then Inl (Transport ''timeout'') else Inr url),
      jsonDecode = (\<lambda>body. Inr body),
      newDocument = (\<lambda>body. if body = CricbuzzURL then Inr exampleHomepage else Inr exampleScorecard),
      toLower = asciiLower,
      oversleep = (\<lambda>n. 0),
      latency = (\<lambda>n. 0)\<rparr>"

definition exampleWorld :: world where
  "exampleWorld = \<lparr>now = 5000000000, lastRequest = 0, requests = 0\<rparr>"

definition exampleMatch :: "string MatchInfo" where
  "exampleMatch =
     \<lparr>CricbuzzMatchID = 42, CricbuzzMatchAPILink = ''link'', MatchShortName = ''IND vs AUS'',
      CricbuzzInfo = ''summary'', Scorecard = [emptyInnings], LastUpdated = 7\<rparr>"

section \<open>Matching and replacing\<close>

lemma match_here_suffix: "match_here r s = Some t \<Longrightarrow> suffix t s"
  by (induction r s rule: match_here.induct)
     (auto split: if_splits option.splits intro: suffix_ConsI)

lemma match_here_last_lit:
  "match_here r' s = Some t \<Longrightarrow> r' = r @ [Lit c] \<Longrightarrow> \<exists>m. s = m @ c # t"
proof (induction r' s arbitrary: r rule: match_here.induct)
  case (2 c' r0)
  from 2(1) show ?case by simp
next
  case (7 k r0)
  from 7(1) show ?case by simp
next
  case (3 c' r0 x xs)
  show ?case
  proof (cases r)
    case Nil
    with 3 show ?thesis by (auto split: if_splits)
  next
    case (Cons a r1)
    from 3(2) have x: "x = c'" and m: "match_here r0 xs = Some t" by (auto split: if_splits)
    from 3(3) Cons have r0: "r0 = r1 @ [Lit c]" by simp
    from "3.IH"[OF x m r0] obtain m where "xs = m @ c # t" by blast
    with x show ?thesis by (metis append_Cons)
  qed
next
  case (4 r0 s)
  then show ?case by (cases r) (auto split: if_splits)
next
  case (5 k r0)
  then show ?case by (cases r) (auto split: if_splits)
next
  case (6 k r0 x xs)
  show ?case
  proof (cases r)
    case Nil
    with 6 show ?thesis by simp
  next
    case (Cons a r1)
    show ?thesis
    proof (cases "cls_has k x")
      case True
      show ?thesis
      proof (cases "match_here (Star k # r0) xs")
        case None
        with 6(4) True have m: "match_here r0 (x # xs) = Some t" by simp
        from 6(5) Cons have r0: "r0 = r1 @ [Lit c]" by simp
        from "6.IH"(2)[OF True None m r0] show ?thesis .
      next
        case (Some t')
        with 6(4) True have t: "t' = t" by simp
        from "6.IH"(1)[OF True _ "6.prems"(2)] Some t have "\<exists>m. xs = m @ c # t" by simp
        then show ?thesis by (metis append_Cons)
      qed
    next
      case False
      with 6(4) have m: "match_here r0 (x # xs) = Some t" by simp
      from 6(5) Cons have r0: "r0 = r1 @ [Lit c]" by simp
      from "6.IH"(3)[OF False m r0] show ?thesis .
    qed
  qed
next
  case (8 k r0 x xs)
  show ?case
  proof (cases r)
    case Nil
    with 8 show ?thesis by simp
  next
    case (Cons a r1)
    from 8(2) have k: "cls_has k x" and m: "match_here (Star k # r0) xs = Some t"
      by (auto split: if_splits)
    from 8(3) Cons have "Star k # r0 = (Star k # r1) @ [Lit c]" by simp
    from "8.IH"[OF k m this] have "\<exists>m. xs = m @ c # t" .
    then show ?thesis by (metis append_Cons)
  qed
qed auto

lemma tagfree_append: "tagfree (a @ b) \<Longrightarrow> tagfree a \<and> tagfree b"
  by (induction a) auto

lemma tagfree_suffix: "tagfree s \<Longrightarrow> suffix t s \<Longrightarrow> tagfree t"
  by (auto simp: suffix_def dest: tagfree_append)

lemma tagfree_prefix: "tagfree s \<Longrightarrow> prefix t s \<Longrightarrow> tagfree t"
  by (auto simp: prefix_def dest: tagfree_append)

lemma tagre_re1: "tagre re1"
  by (simp add: tagre_def re1_def lits_def)
lemma tagre_re2: "tagre re2"
  by (simp add: tagre_def re2_def lits_def)
lemma tagre_re3: "tagre re3"
  by (simp add: tagre_def re3_def lits_def)

lemma tagre_no_match:
  assumes "tagre re" "tagfree s"
  shows "match_here re s = None"
proof (cases "match_here re s")
  case (Some t)
  from assms(1) obtain r where re: "re = Lit CHR ''<'' # r @ [Lit CHR ''>'']"
    by (auto simp: tagre_def)
  from Some re obtain xs where s: "s = CHR ''<'' # xs" and m: "match_here (r @ [Lit CHR ''>'']) xs = Some t"
    by (cases s) (auto split: if_splits)
  from match_here_last_lit[OF m refl] obtain u where "xs = u @ CHR ''>'' # t" by blast
  with s assms(2) show ?thesis by simp
qed simp

lemma ReplaceAllString_tagfree:
  "tagre re \<Longrightarrow> tagfree s \<Longrightarrow> ReplaceAllString re s repl = s"
  by (induction s) (auto simp: tagre_no_match simp del: match_here.simps)

lemma ReplaceAll_tagfree:
  assumes "prefix ''<'' old" "CHR ''>'' \<in> set old"
  shows "tagfree s \<Longrightarrow> ReplaceAll s old new = s"
proof (induction s)
  case (Cons x xs)
  have "\<not> prefix old (x # xs)"
  proof
    assume p: "prefix old (x # xs)"
    from assms(1) obtain o' where o: "old = CHR ''<'' # o'" by (auto simp: prefix_def)
    with assms(2) have "CHR ''>'' \<in> set o'" by auto
    moreover from p o have "x = CHR ''<''" "prefix o' xs" by auto
    ultimately have "x = CHR ''<''" "CHR ''>'' \<in> set xs" by (auto dest: set_mono_prefix)
    with Cons.prems show False by simp
  qed
  with Cons show ?case by simp
qed simp

lemma set_ReplaceAllString_Nil: "set (ReplaceAllString re s []) \<subseteq> set s"
proof (induction re s "[] :: string" rule: ReplaceAllString.induct)
  case (2 re x xs)
  show ?case
  proof (cases "match_here re (x # xs)")
    case None
    with 2 show ?thesis by auto
  next
    case (Some t)
    then have "set t \<subseteq> set (x # xs)" by (auto dest!: match_here_suffix set_mono_suffix)
    with 2 Some show ?thesis by (auto simp del: match_here.simps)
  qed
qed simp

lemma star_not_lit:
  "match_here [Star (NotIn [c]), Lit c] s =
     (case dropWhile (\<lambda>x. x \<noteq> c) s of [] \<Rightarrow> None | y # r \<Rightarrow> Some r)"
  by (induction s) (auto split: list.splits)

lemma re3_match:
  "match_here re3 (x # xs) =
     (if x = CHR ''<'' then (case dropWhile (\<lambda>x. x \<noteq> CHR ''>'') xs of [] \<Rightarrow> None | y # r \<Rightarrow> Some r)
      else None)"
  unfolding re3_def by (simp add: star_not_lit del: match_here.simps(6))

lemma tagfree_re3: "tagfree (ReplaceAllString re3 s [])"
proof (induction re3 s "[] :: string" rule: ReplaceAllString.induct)
  case (2 x xs)
  show ?case
  proof (cases "match_here re3 (x # xs)")
    case None
    have "x = CHR ''<'' \<Longrightarrow> CHR ''>'' \<notin> set (ReplaceAllString re3 xs [])"
    proof -
      assume "x = CHR ''<''"
      with None have "dropWhile (\<lambda>x. x \<noteq> CHR ''>'') xs = []"
        by (auto simp: re3_match split: list.splits)
      then have "CHR ''>'' \<notin> set xs" by auto
      with set_ReplaceAllString_Nil[of re3 xs] show ?thesis by auto
    qed
    with 2(1)[OF None] None show ?thesis by (simp del: match_here.simps)
  next
    case (Some t)
    then have "length t < length (x # xs)"
      using length_dropWhile_le[of "\<lambda>x. x \<noteq> CHR ''>''" xs]
      by (auto simp: re3_match split: if_splits list.splits)
    with 2(2)[OF Some] Some show ?thesis by (simp del: match_here.simps)
  qed
qed simp

lemma star_only: "match_here [Star k] s = Some (dropWhile (cls_has k) s)"
  by (induction s) auto

lemma collapse_Cons:
  "ReplaceAllString reSpaces (x # xs) '' '' =
     (if isW x then CHR '' '' # ReplaceAllString reSpaces (dropWhile isW xs) '' ''
      else x # ReplaceAllString reSpaces xs '' '')"
proof -
  have m: "match_here reSpaces (x # xs) = (if isW x then Some (dropWhile isW xs) else None)"
  proof -
    have "cls_has (In reSpace) = isW" by (auto simp: isW_def)
    then show ?thesis by (simp add: reSpaces_def star_only del: match_here.simps(5,6))
  qed
  have "length (dropWhile isW xs) < length (x # xs)"
    using length_dropWhile_le[of isW xs] by simp
  with m show ?thesis by (simp del: match_here.simps)
qed

lemma collapse_Nil: "ReplaceAllString reSpaces [] '' '' = []"
  by simp

lemma set_collapse: "set (ReplaceAllString reSpaces s '' '') \<subseteq> insert CHR '' '' (set s)"
proof (induction s rule: length_induct)
  case (1 s)
  show ?case
  proof (cases s)
    case (Cons x xs)
    have l: "length (dropWhile isW xs) < length s" "length xs < length s"
      using length_dropWhile_le[of isW xs] Cons by simp_all
    have "set (dropWhile isW xs) \<subseteq> set xs" by (auto dest: set_dropWhileD)
    with 1 l Cons show ?thesis by (auto simp: collapse_Cons simp del: ReplaceAllString.simps(2))
  qed simp
qed

lemma tagfree_collapse: "tagfree s \<Longrightarrow> tagfree (ReplaceAllString reSpaces s '' '')"
proof (induction s rule: length_induct)
  case (1 s)
  show ?case
  proof (cases s)
    case (Cons x xs)
    have l: "length (dropWhile isW xs) < length s" "length xs < length s"
      using length_dropWhile_le[of isW xs] Cons by simp_all
    from 1(2) Cons have tf: "tagfree xs" by simp
    then have tfd: "tagfree (dropWhile isW xs)"
      by (rule tagfree_suffix) (simp add: suffix_dropWhile)
    show ?thesis
    proof (cases "isW x")
      case True
      with 1(1) l tfd Cons show ?thesis
        by (simp add: collapse_Cons del: ReplaceAllString.simps(2))
    next
      case False
      have "x = CHR ''<'' \<Longrightarrow> CHR ''>'' \<notin> set (ReplaceAllString reSpaces xs '' '')"
        using 1(2) Cons set_collapse[of xs] by auto
      with False 1(1) l tf Cons show ?thesis
        by (simp add: collapse_Cons del: ReplaceAllString.simps(2))
    qed
  qed simp
qed

lemma collapse_head:
  "s = [] \<or> \<not> isW (hd s) \<Longrightarrow>
   ReplaceAllString reSpaces s '' '' = [] \<or> \<not> isW (hd (ReplaceAllString reSpaces s '' ''))"
  by (cases s) (auto simp: collapse_Cons simp del: ReplaceAllString.simps(2))

lemma dropWhile_head: "dropWhile P xs = [] \<or> \<not> P (hd (dropWhile P xs))"
  by (induction xs) auto

lemma dropWhile_noop: "s = [] \<or> \<not> P (hd s) \<Longrightarrow> dropWhile P s = s"
  by (cases s) auto

lemma collapse_idem:
  "ReplaceAllString reSpaces (ReplaceAllString reSpaces s '' '') '' '' = ReplaceAllString reSpaces s '' ''"
proof (induction s rule: length_induct)
  case (1 s)
  show ?case
  proof (cases s)
    case (Cons x xs)
    have l: "length (dropWhile isW xs) < length s" "length xs < length s"
      using length_dropWhile_le[of isW xs] Cons by simp_all
    show ?thesis
    proof (cases "isW x")
      case True
      let ?c = "ReplaceAllString reSpaces (dropWhile isW xs) '' ''"
      have "?c = [] \<or> \<not> isW (hd ?c)"
        by (rule collapse_head) (rule dropWhile_head)
      then have d: "dropWhile isW ?c = ?c" by (rule dropWhile_noop)
      have sp: "isW CHR '' ''" by (simp add: isW_def reSpace_def)
      from 1 l have "ReplaceAllString reSpaces ?c '' '' = ?c" by blast
      with True Cons d sp show ?thesis
        by (simp add: collapse_Cons del: ReplaceAllString.simps(2))
    next
      case False
      from 1 l have "ReplaceAllString reSpaces (ReplaceAllString reSpaces xs '' '') '' '' = ReplaceAllString reSpaces xs '' ''"
        by blast
      with False Cons show ?thesis
        by (simp add: collapse_Cons del: ReplaceAllString.simps(2))
    qed
  qed simp
qed

lemma leadingSpace_0: "leadingSpace s = 0 \<longleftrightarrow> (\<forall>r \<in> set spaceRunes. \<not> prefix r s)"
proof -
  have ne: "\<forall>r \<in> set spaceRunes. r \<noteq> []" by (simp add: spaceRunes_def)
  show ?thesis
  proof (cases "find (\<lambda>r. prefix r s) spaceRunes")
    case None
    then have "\<forall>r \<in> set spaceRunes. \<not> prefix r s" by (simp add: find_None_iff)
    with None show ?thesis by (simp add: leadingSpace_def)
  next
    case (Some r)
    then have "r \<in> set spaceRunes" "prefix r s"
      by (auto simp: find_Some_iff)
    with ne Some show ?thesis by (auto simp: leadingSpace_def)
  qed
qed

lemma trailingSpace_0: "trailingSpace s = 0 \<longleftrightarrow> (\<forall>r \<in> set spaceRunes. \<not> suffix r s)"
proof -
  have ne: "\<forall>r \<in> set spaceRunes. r \<noteq> []" by (simp add: spaceRunes_def)
  show ?thesis
  proof (cases "find (\<lambda>r. suffix r s) spaceRunes")
    case None
    then have "\<forall>r \<in> set spaceRunes. \<not> suffix r s" by (simp add: find_None_iff)
    with None show ?thesis by (simp add: trailingSpace_def)
  next
    case (Some r)
    then have "r \<in> set spaceRunes" "suffix r s"
      by (auto simp: find_Some_iff)
    with ne Some show ?thesis by (auto simp: trailingSpace_def)
  qed
qed

lemma trimLeft_suffix: "suffix (trimLeft s) s"
proof (induction s rule: trimLeft.induct)
  case (1 s)
  show ?case
  proof (cases "leadingSpace s = 0")
    case False
    with 1 have "suffix (trimLeft (drop (leadingSpace s) s)) (drop (leadingSpace s) s)" by simp
    then have "suffix (trimLeft (drop (leadingSpace s) s)) s"
      by (rule suffix_order.trans) (rule suffix_drop)
    with False show ?thesis by (subst trimLeft.simps) simp
  qed (subst trimLeft.simps, simp)
qed

lemma trimRight_prefix: "prefix (trimRight s) s"
proof (induction s rule: trimRight.induct)
  case (1 s)
  show ?case
  proof (cases "trailingSpace s = 0")
    case False
    with 1 have "prefix (trimRight (take (length s - trailingSpace s) s)) (take (length s - trailingSpace s) s)" by simp
    then have "prefix (trimRight (take (length s - trailingSpace s) s)) s"
      by (rule prefix_order.trans) (rule take_is_prefix)
    with False show ?thesis by (subst trimRight.simps) simp
  qed (subst trimRight.simps, simp)
qed

lemma trimLeft_clean: "leadingSpace (trimLeft s) = 0"
proof (induction s rule: trimLeft.induct)
  case (1 s)
  then show ?case by (subst trimLeft.simps) simp
qed

lemma trimRight_clean: "trailingSpace (trimRight s) = 0"
proof (induction s rule: trimRight.induct)
  case (1 s)
  then show ?case by (subst trimRight.simps) simp
qed

lemma TrimSpace_clean: "leadingSpace (TrimSpace s) = 0 \<and> trailingSpace (TrimSpace s) = 0"
proof -
  have "leadingSpace (trimRight (trimLeft s)) = 0"
    unfolding leadingSpace_0
  proof
    fix r assume r: "r \<in> set spaceRunes"
    show "\<not> prefix r (trimRight (trimLeft s))"
    proof
      assume "prefix r (trimRight (trimLeft s))"
      then have "prefix r (trimLeft s)"
        using trimRight_prefix[of "trimLeft s"] by (rule prefix_order.trans)
      with r trimLeft_clean[of s] show False by (simp add: leadingSpace_0)
    qed
  qed
  then show ?thesis by (simp add: TrimSpace_def trimRight_clean)
qed

lemma TrimSpace_noop: "leadingSpace s = 0 \<Longrightarrow> trailingSpace s = 0 \<Longrightarrow> TrimSpace s = s"
  by (simp add: TrimSpace_def trimLeft.simps[of s] trimRight.simps[of s])

lemma tagfree_TrimSpace: "tagfree s \<Longrightarrow> tagfree (TrimSpace s)"
  unfolding TrimSpace_def
  by (meson tagfree_prefix tagfree_suffix trimLeft_suffix trimRight_prefix)

lemma spaceRunes_kinds_all:
  "\<forall>r \<in> set spaceRunes. (\<forall>c \<in> set r. \<not> isW c) \<or> (isW (hd r) \<and> r = [hd r])"
  by (simp add: spaceRunes_def isW_def reSpace_def)

lemma spaceRunes_kinds:
  "r \<in> set spaceRunes \<Longrightarrow> (\<forall>c \<in> set r. \<not> isW c) \<or> (\<exists>w. isW w \<and> r = [w])"
  using spaceRunes_kinds_all by blast

lemma isW_spaceRune: "isW w \<Longrightarrow> [w] \<in> set spaceRunes"
  unfolding spaceRunes_def isW_def reSpace_def by simp blast

lemma collapse_prefix_nonW:
  "\<forall>c \<in> set r. \<not> isW c \<Longrightarrow> prefix r (ReplaceAllString reSpaces s '' '') \<Longrightarrow> prefix r s"
proof (induction r arbitrary: s)
  case (Cons c r)
  have sp: "isW CHR '' ''" by (simp add: isW_def reSpace_def)
  from Cons.prems(2) obtain x xs where s: "s = x # xs" by (cases s) auto
  show ?case
  proof (cases "isW x")
    case True
    with Cons.prems s sp show ?thesis by (auto simp: collapse_Cons simp del: ReplaceAllString.simps(2))
  next
    case False
    with Cons.prems s have "c = x" "prefix r (ReplaceAllString reSpaces xs '' '')"
      by (auto simp: collapse_Cons simp del: ReplaceAllString.simps(2))
    with Cons.IH[of xs] Cons.prems(1) s show ?thesis by simp
  qed
qed simp

lemma collapse_leading: 
  assumes "leadingSpace s = 0"
  shows "leadingSpace (ReplaceAllString reSpaces s '' '') = 0"
  unfolding leadingSpace_0
proof
  fix r assume r: "r \<in> set spaceRunes"
  show "\<not> prefix r (ReplaceAllString reSpaces s '' '')"
  proof
    assume p: "prefix r (ReplaceAllString reSpaces s '' '')"
    from spaceRunes_kinds[OF r] show False
    proof
      assume "\<forall>c \<in> set r. \<not> isW c"
      from collapse_prefix_nonW[OF this p] r assms show False by (simp add: leadingSpace_0)
    next
      assume "\<exists>w. isW w \<and> r = [w]"
      then obtain w where w: "isW w" "r = [w]" by blast
      with p obtain x xs where s: "s = x # xs" by (cases s) auto
      show False
      proof (cases "isW x")
        case True
        then have "[x] \<in> set spaceRunes" by (rule isW_spaceRune)
        moreover have "prefix [x] s" using s by simp
        ultimately show False using assms by (simp add: leadingSpace_0)
      next
        case False
        with p w s show False by (auto simp: collapse_Cons simp del: ReplaceAllString.simps(2))
      qed
    qed
  qed
qed

lemma collapse_snoc_nonW:
  "\<not> isW x \<Longrightarrow> ReplaceAllString reSpaces (s @ [x]) '' '' = ReplaceAllString reSpaces s '' '' @ [x]"
proof (induction s rule: length_induct)
  case (1 s)
  show ?case
  proof (cases s)
    case Nil
    with 1(2) show ?thesis by (simp add: collapse_Cons del: ReplaceAllString.simps(2))
  next
    case (Cons y ys)
    have l: "length (dropWhile isW ys) < length s" "length ys < length s"
      using length_dropWhile_le[of isW ys] Cons by simp_all
    have d: "dropWhile isW (ys @ [x]) = dropWhile isW ys @ [x]"
      using 1(2) by (simp add: dropWhile_append3)
    from 1 l have a: "ReplaceAllString reSpaces (dropWhile isW ys @ [x]) '' '' = ReplaceAllString reSpaces (dropWhile isW ys) '' '' @ [x]"
      by blast
    from 1 l have b: "ReplaceAllString reSpaces (ys @ [x]) '' '' = ReplaceAllString reSpaces ys '' '' @ [x]"
      by blast
    from Cons a b d show ?thesis by (simp add: collapse_Cons del: ReplaceAllString.simps(2))
  qed
qed

lemma collapse_snoc_W:
  "isW x \<Longrightarrow> \<exists>u. ReplaceAllString reSpaces (s @ [x]) '' '' = u @ '' ''"
proof (induction s rule: length_induct)
  case (1 s)
  show ?case
  proof (cases s)
    case Nil
    with 1(2) show ?thesis by (simp add: collapse_Cons del: ReplaceAllString.simps(2))
  next
    case (Cons y ys)
    have l: "length (dropWhile isW ys) < length s" "length ys < length s"
      using length_dropWhile_le[of isW ys] Cons by simp_all
    show ?thesis
    proof (cases "isW y")
      case False
      from 1 l obtain u where "ReplaceAllString reSpaces (ys @ [x]) '' '' = u @ '' ''" by blast
      with False Cons show ?thesis by (simp add: collapse_Cons del: ReplaceAllString.simps(2))
    next
      case True
      show ?thesis
      proof (cases "\<forall>z \<in> set ys. isW z")
        case all: True
        with 1(2) have "dropWhile isW (ys @ [x]) = []" by simp
        with True Cons show ?thesis by (simp add: collapse_Cons del: ReplaceAllString.simps(2))
      next
        case False
        then have d: "dropWhile isW (ys @ [x]) = dropWhile isW ys @ [x]" by (auto simp: dropWhile_append)
        from 1 l obtain u where "ReplaceAllString reSpaces (dropWhile isW ys @ [x]) '' '' = u @ '' ''" by blast
        with True Cons d show ?thesis by (simp add: collapse_Cons del: ReplaceAllString.simps(2))
      qed
    qed
  qed
qed

lemma collapse_suffix_nonW:
  "\<forall>c \<in> set r. \<not> isW c \<Longrightarrow> suffix r (ReplaceAllString reSpaces s '' '') \<Longrightarrow> suffix r s"
proof (induction r arbitrary: s rule: rev_induct)
  case (snoc c r)
  have sp: "isW CHR '' ''" by (simp add: isW_def reSpace_def)
  from snoc.prems have c: "\<not> isW c" by simp
  from snoc.prems(2) have "s \<noteq> []" by (auto simp: suffix_def)
  then obtain s' y where s: "s = s' @ [y]" by (cases s rule: rev_cases) auto
  show ?case
  proof (cases "isW y")
    case True
    from collapse_snoc_W[OF True, of s'] obtain u where "ReplaceAllString reSpaces s '' '' = u @ '' ''"
      using s by auto
    with snoc.prems(2) have "c = CHR '' ''" by simp
    with c sp show ?thesis by simp
  next
    case False
    with snoc.prems(2) s have "c = y" "suffix r (ReplaceAllString reSpaces s' '' '')"
      by (simp_all add: collapse_snoc_nonW)
    with snoc.IH[of s'] snoc.prems(1) s show ?thesis by simp
  qed
qed simp

lemma collapse_trailing:
  assumes "trailingSpace s = 0"
  shows "trailingSpace (ReplaceAllString reSpaces s '' '') = 0"
  unfolding trailingSpace_0
proof
  fix r assume r: "r \<in> set spaceRunes"
  show "\<not> suffix r (ReplaceAllString reSpaces s '' '')"
  proof
    assume p: "suffix r (ReplaceAllString reSpaces s '' '')"
    from spaceRunes_kinds[OF r] show False
    proof
      assume "\<forall>c \<in> set r. \<not> isW c"
      from collapse_suffix_nonW[OF this p] r assms show False by (simp add: trailingSpace_0)
    next
      assume "\<exists>w. isW w \<and> r = [w]"
      then obtain w where w: "isW w" "r = [w]" by blast
      with p have "s \<noteq> []" by (auto simp: suffix_def)
      then obtain s' y where s: "s = s' @ [y]" by (cases s rule: rev_cases) auto
      show False
      proof (cases "isW y")
        case True
        then have "[y] \<in> set spaceRunes" by (rule isW_spaceRune)
        moreover have "suffix [y] s" using s by simp
        ultimately show False using assms by (simp add: trailingSpace_0)
      next
        case False
        with p w s show False by (simp add: collapse_snoc_nonW)
      qed
    qed
  qed
qed

text \<open>
  C7: the sanitizer is idempotent: for every string \<open>s\<close>, sanitizing the sanitized
  string gives the sanitized string again.
\<close>

theorem cleanHTML_idempotent: "cleanHTML (cleanHTML s) = cleanHTML s"
proof (cases "s = []")
  case True
  then show ?thesis by (simp add: cleanHTML_def)
next
  case False
  define u where "u = ReplaceAllString re3 (ReplaceAll (ReplaceAll (ReplaceAll
      (ReplaceAllString re2 (ReplaceAll (ReplaceAllString re1 s []) ''</span>'' []) [])
      ''</a>'' []) ''<strong>'' []) ''</strong>'' []) []"
  define h where "h = ReplaceAllString reSpaces (TrimSpace u) '' ''"
  from False have hs: "cleanHTML s = h"
    by (simp add: cleanHTML_def h_def u_def Let_def)
  have "tagfree u" unfolding u_def by (rule tagfree_re3)
  then have tf: "tagfree h" unfolding h_def by (intro tagfree_collapse tagfree_TrimSpace)
  have t1: "ReplaceAllString re1 h [] = h" using tagre_re1 tf by (rule ReplaceAllString_tagfree)
  have t2: "ReplaceAllString re2 h [] = h" using tagre_re2 tf by (rule ReplaceAllString_tagfree)
  have t3: "ReplaceAllString re3 h [] = h" using tagre_re3 tf by (rule ReplaceAllString_tagfree)
  have l1: "ReplaceAll h ''</span>'' [] = h" using tf by (intro ReplaceAll_tagfree) simp_all
  have l2: "ReplaceAll h ''</a>'' [] = h" using tf by (intro ReplaceAll_tagfree) simp_all
  have l3: "ReplaceAll h ''<strong>'' [] = h" using tf by (intro ReplaceAll_tagfree) simp_all
  have l4: "ReplaceAll h ''</strong>'' [] = h" using tf by (intro ReplaceAll_tagfree) simp_all
  have "leadingSpace h = 0" "trailingSpace h = 0"
    unfolding h_def using TrimSpace_clean[of u] by (simp_all add: collapse_leading collapse_trailing)
  then have tr: "TrimSpace h = h" by (rule TrimSpace_noop)
  have co: "ReplaceAllString reSpaces h '' '' = h" unfolding h_def by (rule collapse_idem)
  have "cleanHTML h = h"
    by (simp add: cleanHTML_def Let_def t1 t2 t3 l1 l2 l3 l4 tr co del: ReplaceAllString.simps ReplaceAll.simps)
  with hs show ?thesis by simp
qed

section \<open>Properties of the scorecard extractor\<close>

lemma Contains_self: "Contains s s"
  by (cases s) simp_all

lemma batsmanCell_late: "7 \<le> k \<Longrightarrow> foldl (batsmanCell n) b (enumerate k xs) = b"
  by (induction xs arbitrary: k b) (simp_all add: batsmanCell_def)

lemma bowlerCell_late: "8 \<le> k \<Longrightarrow> foldl (bowlerCell n) b (enumerate k xs) = b"
  by (induction xs arbitrary: k b) (simp_all add: bowlerCell_def)

lemma length_ge_6:
  assumes "6 \<le> length (divs :: 'a list)"
  obtains d0 d1 d2 d3 d4 d5 rest where "divs = d0 # d1 # d2 # d3 # d4 # d5 # rest"
proof -
  from assms obtain d0 r0 where 0: "divs = d0 # r0" by (cases divs) auto
  with assms obtain d1 r1 where 1: "r0 = d1 # r1" by (cases r0) auto
  with 0 assms obtain d2 r2 where 2: "r1 = d2 # r2" by (cases r1) auto
  with 0 1 assms obtain d3 r3 where 3: "r2 = d3 # r3" by (cases r2) auto
  with 0 1 2 assms obtain d4 r4 where 4: "r3 = d4 # r4" by (cases r3) auto
  with 0 1 2 3 assms obtain d5 r5 where 5: "r4 = d5 # r5" by (cases r4) auto
  from 0 1 2 3 4 5 that show thesis by simp
qed

lemma parseBatsman_fields:
  assumes "6 \<le> length divs"
  shows "parseBatsman divs =
     \<lparr>Name = TrimSpace (Text (divs ! 0)),
      Status = cleanHTML (Html (divs ! 1)),
      Runs = cleanHTML (Html (divs ! 2)),
      Balls = cleanHTML (Html (divs ! 3)),
      Fours = cleanHTML (Html (divs ! 4)),
      Sixes = cleanHTML (Html (divs ! 5)),
      StrikeRate = (if 6 < length divs then cleanHTML (Html (divs ! 6)) else [])\<rparr>"
proof -
  from assms obtain d0 d1 d2 d3 d4 d5 rest where d: "divs = d0 # d1 # d2 # d3 # d4 # d5 # rest"
    by (rule length_ge_6)
  show ?thesis
  proof (cases rest)
    case Nil
    with d show ?thesis by (simp add: parseBatsman_def batsmanCell_def emptyBatsman_def)
  next
    case (Cons d6 rest')
    with d show ?thesis
      by (simp add: parseBatsman_def batsmanCell_late) (simp add: batsmanCell_def emptyBatsman_def)
  qed
qed

lemma parseBowler_fields:
  assumes "6 \<le> length divs"
  shows "parseBowler divs =
     \<lparr>BowlerName = TrimSpace (Text (divs ! 0)),
      Overs = cleanHTML (Html (divs ! 1)),
      Maidens = cleanHTML (Html (divs ! 2)),
      BowlerRuns = cleanHTML (Html (divs ! 3)),
      Wickets = cleanHTML (Html (divs ! 4)),
      NoBalls = cleanHTML (Html (divs ! 5)),
      Wides = (if 6 < length divs then cleanHTML (Html (divs ! 6)) else []),
      Economy = (if 7 < length divs then cleanHTML (Html (divs ! 7)) else [])\<rparr>"
proof -
  from assms obtain d0 d1 d2 d3 d4 d5 rest where d: "divs = d0 # d1 # d2 # d3 # d4 # d5 # rest"
    by (rule length_ge_6)
  show ?thesis
  proof (cases rest)
    case Nil
    with d show ?thesis by (simp add: parseBowler_def bowlerCell_def emptyBowler_def)
  next
    case r6: (Cons d6 rest')
    show ?thesis
    proof (cases rest')
      case Nil
      with d r6 show ?thesis by (simp add: parseBowler_def bowlerCell_def emptyBowler_def)
    next
      case (Cons d7 rest'')
      with d r6 show ?thesis
        by (simp add: parseBowler_def bowlerCell_late) (simp add: bowlerCell_def emptyBowler_def)
    qed
  qed
qed

text \<open>What one row adds to the innings.\<close>

lemma parseRow_cases:
  "parseRow lower innings divs = innings
   \<or> (6 \<le> length divs
      \<and> isBattingRow lower (TrimSpace (Text (divs ! 0))) (TrimSpace (Text (divs ! 1))) (length divs)
      \<and> Name (parseBatsman divs) \<noteq> []
      \<and> \<not> Contains (lower (Name (parseBatsman divs))) ''extras''
      \<and> \<not> Contains (lower (Name (parseBatsman divs))) ''total''
      \<and> \<not> Contains (lower (Name (parseBatsman divs))) ''fall of wickets''
      \<and> parseRow lower innings divs = innings\<lparr>BatsmanDetails := BatsmanDetails innings @ [parseBatsman divs]\<rparr>)
   \<or> (6 \<le> length divs
      \<and> \<not> isBattingRow lower (TrimSpace (Text (divs ! 0))) (TrimSpace (Text (divs ! 1))) (length divs)
      \<and> BowlerName (parseBowler divs) \<noteq> []
      \<and> parseRow lower innings divs = innings\<lparr>BowlerDetails := BowlerDetails innings @ [parseBowler divs]\<rparr>)"
  by (simp add: parseRow_def Let_def)

lemma parseInningsInfo_snoc:
  "parseInningsInfo lower (rows @ [divs]) = parseRow lower (parseInningsInfo lower rows) divs"
  by (simp add: parseInningsInfo_def)

lemma parseInningsInfo_Nil: "parseInningsInfo lower [] = emptyInnings"
  by (simp add: parseInningsInfo_def)

text \<open>
  C1 (as amended): every batsman record has a non-empty name whose lowered form
  contains none of the labels "extras", "total", "fall of wickets" (so it equals none
  of them); every bowler record has a non-empty name.
\<close>

theorem record_names:
  "(\<forall>b \<in> set (BatsmanDetails (parseInningsInfo lower rows)).
      Name b \<noteq> []
      \<and> lower (Name b) \<notin> {''extras'', ''total'', ''fall of wickets''}
      \<and> \<not> Contains (lower (Name b)) ''extras''
      \<and> \<not> Contains (lower (Name b)) ''total''
      \<and> \<not> Contains (lower (Name b)) ''fall of wickets'')
   \<and> (\<forall>w \<in> set (BowlerDetails (parseInningsInfo lower rows)). BowlerName w \<noteq> [])"
proof (induction rows rule: rev_induct)
  case Nil
  show ?case by (simp add: parseInningsInfo_Nil emptyInnings_def)
next
  case (snoc divs rows)
  let ?i = "parseInningsInfo lower rows"
  have eq: "\<And>s l. \<not> Contains s l \<Longrightarrow> s \<noteq> l"
    using Contains_self by auto
  from parseRow_cases[of lower ?i divs] snoc show ?case
    unfolding parseInningsInfo_snoc
    by (elim disjE conjE) (auto dest: eq)
qed

theorem record_names_witness:
  "parseInningsInfo asciiLower
     [map plain [''Kohli'', ''lbw b Khan'', ''10'', ''5'', ''1'', ''0'', ''200.00''],
      map plain [''Khan'', ''4.0'', ''0'', ''31'', ''1'', ''0'', ''2'', ''7.75'']]
   = \<lparr>BatsmanDetails =
        [\<lparr>Name = ''Kohli'', Status = ''lbw b Khan'', Runs = ''10'', Balls = ''5'',
          Fours = ''1'', Sixes = ''0'', StrikeRate = ''200.00''\<rparr>],
      BowlerDetails =
        [\<lparr>BowlerName = ''Khan'', Overs = ''4.0'', Maidens = ''0'', BowlerRuns = ''31'',
          Wickets = ''1'', NoBalls = ''0'', Wides = ''2'', Economy = ''7.75''\<rparr>]\<rparr>
   \<and> ''Kohli'' \<noteq> []
   \<and> asciiLower ''Kohli'' \<notin> {''extras'', ''total'', ''fall of wickets''}
   \<and> \<not> Contains (asciiLower ''Kohli'') ''extras''
   \<and> ''Khan'' \<noteq> []"
proof -
  let ?rows = "[map plain [''Kohli'', ''lbw b Khan'', ''10'', ''5'', ''1'', ''0'', ''200.00''],
      map plain [''Khan'', ''4.0'', ''0'', ''31'', ''1'', ''0'', ''2'', ''7.75'']]"
  have ev: "parseInningsInfo asciiLower ?rows
   = \<lparr>BatsmanDetails =
        [\<lparr>Name = ''Kohli'', Status = ''lbw b Khan'', Runs = ''10'', Balls = ''5'',
          Fours = ''1'', Sixes = ''0'', StrikeRate = ''200.00''\<rparr>],
      BowlerDetails =
        [\<lparr>BowlerName = ''Khan'', Overs = ''4.0'', Maidens = ''0'', BowlerRuns = ''31'',
          Wickets = ''1'', NoBalls = ''0'', Wides = ''2'', Economy = ''7.75''\<rparr>]\<rparr>"
    by code_simp
  from record_names[of asciiLower ?rows] show ?thesis
    unfolding ev by simp
qed

text \<open>
  A row whose second cell is an overs value is read as a bowling row whatever its first
  cell says: the row below gives a bowler record named "Extras".
\<close>

theorem bowler_named_extras:
  "BowlerDetails (parseInningsInfo asciiLower
     [map plain [''Extras'', ''4.2'', ''0'', ''1'', ''2'', ''3'']])
   = [\<lparr>BowlerName = ''Extras'', Overs = ''4.2'', Maidens = ''0'', BowlerRuns = ''1'',
       Wickets = ''2'', NoBalls = ''3'', Wides = [], Economy = []\<rparr>]
   \<and> asciiLower ''Extras'' = ''extras''"
  by code_simp

text \<open>
  C2 (as amended): a row with at least 6 cells whose second cell neither matches the
  overs pattern nor contains a dismissal phrase, and one of whose first two cells
  contains a label, produces no batting record; it is read as a bowling row, and adds one
  bowling record, named by its first cell, unless the first cell is empty.
\<close>

theorem label_row_is_bowling:
  assumes "6 \<le> length divs"
    and "\<not> MatchString oversPattern (TrimSpace (Text (divs ! 1)))"
    and "\<not> list_ex (\<lambda>status. Contains (lower (TrimSpace (Text (divs ! 1)))) status) battingStatuses"
    and "list_ex (\<lambda>skip. Contains (lower (TrimSpace (Text (divs ! 0)))) skip
                        \<or> Contains (lower (TrimSpace (Text (divs ! 1)))) skip) skipRows"
  shows "\<not> isBattingRow lower (TrimSpace (Text (divs ! 0))) (TrimSpace (Text (divs ! 1))) (length divs)
    \<and> BowlerName (parseBowler divs) = TrimSpace (Text (divs ! 0))
    \<and> parseRow lower innings divs =
        (if TrimSpace (Text (divs ! 0)) = [] then innings
         else innings\<lparr>BowlerDetails := BowlerDetails innings @ [parseBowler divs]\<rparr>)
    \<and> parseInningsInfo lower [divs] =
        \<lparr>BatsmanDetails = [],
         BowlerDetails = (if TrimSpace (Text (divs ! 0)) = [] then [] else [parseBowler divs])\<rparr>"
proof -
  from assms(2-4) have nb:
    "\<not> isBattingRow lower (TrimSpace (Text (divs ! 0))) (TrimSpace (Text (divs ! 1))) (length divs)"
    by (simp add: isBattingRow_def)
  from assms(1) have name: "BowlerName (parseBowler divs) = TrimSpace (Text (divs ! 0))"
    by (simp add: parseBowler_fields)
  from assms(1) have ne: "divs \<noteq> []" "1 < length divs" by auto
  from assms(1) nb name ne have row: "\<And>innings. parseRow lower innings divs =
        (if TrimSpace (Text (divs ! 0)) = [] then innings
         else innings\<lparr>BowlerDetails := BowlerDetails innings @ [parseBowler divs]\<rparr>)"
    by (simp add: parseRow_def Let_def)
  have "parseInningsInfo lower [divs] = parseRow lower emptyInnings divs"
    by (simp add: parseInningsInfo_def)
  with row[of emptyInnings] have "parseInningsInfo lower [divs] =
        \<lparr>BatsmanDetails = [],
         BowlerDetails = (if TrimSpace (Text (divs ! 0)) = [] then [] else [parseBowler divs])\<rparr>"
    by (simp add: emptyInnings_def)
  with nb name row show ?thesis by simp
qed

theorem label_row_is_bowling_witness:
  "parseInningsInfo asciiLower [map plain [''Total'', ''250'', ''(10 wkts)'', [], [], []]]
   = \<lparr>BatsmanDetails = [],
      BowlerDetails =
        [\<lparr>BowlerName = ''Total'', Overs = ''250'', Maidens = ''(10 wkts)'', BowlerRuns = [],
          Wickets = [], NoBalls = [], Wides = [], Economy = []\<rparr>]\<rparr>"
proof -
  let ?divs = "map plain [''Total'', ''250'', ''(10 wkts)'', [], [], []]"
  have h1: "6 \<le> length ?divs" by simp
  have h2: "\<not> MatchString oversPattern (TrimSpace (Text (?divs ! 1)))" by code_simp
  have h3: "\<not> list_ex (\<lambda>status. Contains (asciiLower (TrimSpace (Text (?divs ! 1)))) status) battingStatuses"
    by code_simp
  have h4: "list_ex (\<lambda>skip. Contains (asciiLower (TrimSpace (Text (?divs ! 0)))) skip
                        \<or> Contains (asciiLower (TrimSpace (Text (?divs ! 1)))) skip) skipRows"
    by code_simp
  have t: "TrimSpace (Text (?divs ! 0)) \<noteq> []" by code_simp
  have b: "parseBowler ?divs = \<lparr>BowlerName = ''Total'', Overs = ''250'', Maidens = ''(10 wkts)'', BowlerRuns = [],
          Wickets = [], NoBalls = [], Wides = [], Economy = []\<rparr>" by code_simp
  from label_row_is_bowling[OF h1 h2 h3 h4, of emptyInnings] t b show ?thesis by simp
qed

text \<open>
  The row below has 6 cells, its second cell is no overs value and holds no dismissal
  phrase, and its first cell contains the label "extras"; it gives a bowler record.
\<close>

theorem extras_row_gives_record:
  "6 \<le> length (map plain [''Extras'', ''12'', ''(b 1, lb 4)'', [], [], []])
   \<and> \<not> MatchString oversPattern (TrimSpace ''12'')
   \<and> \<not> list_ex (\<lambda>status. Contains (asciiLower (TrimSpace ''12'')) status) battingStatuses
   \<and> Contains (asciiLower (TrimSpace ''Extras'')) ''extras''
   \<and> parseInningsInfo asciiLower [map plain [''Extras'', ''12'', ''(b 1, lb 4)'', [], [], []]]
     = \<lparr>BatsmanDetails = [],
        BowlerDetails =
          [\<lparr>BowlerName = ''Extras'', Overs = ''12'', Maidens = ''(b 1, lb 4)'', BowlerRuns = [],
            Wickets = [], NoBalls = [], Wides = [], Economy = []\<rparr>]\<rparr>"
  by code_simp

text \<open>
  C4 (as amended): every field of a record except the name is the sanitizer's result on
  the inner markup of the cell at the field's position (the empty string when the row has
  no such cell); the name is the trimmed text content of the first cell, which does not
  pass through the sanitizer.
\<close>

theorem record_fields:
  "(\<forall>b \<in> set (BatsmanDetails (parseInningsInfo lower rows)).
      \<exists>divs \<in> set rows. 6 \<le> length divs \<and>
        b = \<lparr>Name = TrimSpace (Text (divs ! 0)),
             Status = cleanHTML (Html (divs ! 1)),
             Runs = cleanHTML (Html (divs ! 2)),
             Balls = cleanHTML (Html (divs ! 3)),
             Fours = cleanHTML (Html (divs ! 4)),
             Sixes = cleanHTML (Html (divs ! 5)),
             StrikeRate = (if 6 < length divs then cleanHTML (Html (divs ! 6)) else [])\<rparr>)
   \<and> (\<forall>w \<in> set (BowlerDetails (parseInningsInfo lower rows)).
      \<exists>divs \<in> set rows. 6 \<le> length divs \<and>
        w = \<lparr>BowlerName = TrimSpace (Text (divs ! 0)),
             Overs = cleanHTML (Html (divs ! 1)),
             Maidens = cleanHTML (Html (divs ! 2)),
             BowlerRuns = cleanHTML (Html (divs ! 3)),
             Wickets = cleanHTML (Html (divs ! 4)),
             NoBalls = cleanHTML (Html (divs ! 5)),
             Wides = (if 6 < length divs then cleanHTML (Html (divs ! 6)) else []),
             Economy = (if 7 < length divs then cleanHTML (Html (divs ! 7)) else [])\<rparr>)"
  (is "?B rows \<and> ?W rows")
proof (induction rows rule: rev_induct)
  case Nil
  show ?case by (simp add: parseInningsInfo_Nil emptyInnings_def)
next
  case (snoc divs rows)
  let ?i = "parseInningsInfo lower rows"
  from parseRow_cases[of lower ?i divs]
  consider (same) "parseRow lower ?i divs = ?i"
    | (bat) "6 \<le> length divs"
        "parseRow lower ?i divs = ?i\<lparr>BatsmanDetails := BatsmanDetails ?i @ [parseBatsman divs]\<rparr>"
    | (bowl) "6 \<le> length divs"
        "parseRow lower ?i divs = ?i\<lparr>BowlerDetails := BowlerDetails ?i @ [parseBowler divs]\<rparr>"
    by blast
  then show ?case
  proof cases
    case same
    with snoc show ?thesis unfolding parseInningsInfo_snoc by auto
  next
    case bat
    from snoc bat(2) parseBatsman_fields[OF bat(1)] show ?thesis
      unfolding parseInningsInfo_snoc using bat(1) by auto
  next
    case bowl
    from snoc bowl(2) parseBowler_fields[OF bowl(1)] show ?thesis
      unfolding parseInningsInfo_snoc using bowl(1) by auto
  qed
qed


theorem record_fields_witness:
  "parseInningsInfo asciiLower
     [map plain [''Kohli'', ''lbw b Khan'', ''10'', ''5'', ''1'', ''0'', ''200.00''],
      map plain [''Khan'', ''4.0'', ''0'', ''31'', ''1'', ''0'', ''2'', ''7.75'']]
   = \<lparr>BatsmanDetails =
        [\<lparr>Name = ''Kohli'', Status = ''lbw b Khan'', Runs = ''10'', Balls = ''5'',
          Fours = ''1'', Sixes = ''0'', StrikeRate = ''200.00''\<rparr>],
      BowlerDetails =
        [\<lparr>BowlerName = ''Khan'', Overs = ''4.0'', Maidens = ''0'', BowlerRuns = ''31'',
          Wickets = ''1'', NoBalls = ''0'', Wides = ''2'', Economy = ''7.75''\<rparr>]\<rparr>
   \<and> (\<exists>divs \<in> set [map plain [''Kohli'', ''lbw b Khan'', ''10'', ''5'', ''1'', ''0'', ''200.00''],
                       map plain [''Khan'', ''4.0'', ''0'', ''31'', ''1'', ''0'', ''2'', ''7.75'']].
        6 \<le> length divs \<and>
        \<lparr>Name = ''Kohli'', Status = ''lbw b Khan'', Runs = ''10'', Balls = ''5'',
          Fours = ''1'', Sixes = ''0'', StrikeRate = ''200.00''\<rparr>
        = \<lparr>Name = TrimSpace (Text (divs ! 0)),
             Status = cleanHTML (Html (divs ! 1)),
             Runs = cleanHTML (Html (divs ! 2)),
             Balls = cleanHTML (Html (divs ! 3)),
             Fours = cleanHTML (Html (divs ! 4)),
             Sixes = cleanHTML (Html (divs ! 5)),
             StrikeRate = (if 6 < length divs then cleanHTML (Html (divs ! 6)) else [])\<rparr>)"
proof -
  let ?rows = "[map plain [''Kohli'', ''lbw b Khan'', ''10'', ''5'', ''1'', ''0'', ''200.00''],
      map plain [''Khan'', ''4.0'', ''0'', ''31'', ''1'', ''0'', ''2'', ''7.75'']]"
  have ev: "parseInningsInfo asciiLower ?rows
   = \<lparr>BatsmanDetails =
        [\<lparr>Name = ''Kohli'', Status = ''lbw b Khan'', Runs = ''10'', Balls = ''5'',
          Fours = ''1'', Sixes = ''0'', StrikeRate = ''200.00''\<rparr>],
      BowlerDetails =
        [\<lparr>BowlerName = ''Khan'', Overs = ''4.0'', Maidens = ''0'', BowlerRuns = ''31'',
          Wickets = ''1'', NoBalls = ''0'', Wides = ''2'', Economy = ''7.75''\<rparr>]\<rparr>"
    by code_simp
  have no: "TrimSpace (Text (plain ''Khan'')) \<noteq> ''Kohli''"
    by code_simp
  from record_fields[of asciiLower ?rows] no show ?thesis
    unfolding ev by auto
qed

text \<open>
  A first cell with two spaces in its text: the name keeps them, where the sanitizer
  turns them into one.
\<close>

theorem name_is_not_sanitized:
  "BatsmanDetails (parseInningsInfo asciiLower
     [map plain [''A  B'', ''not out'', ''10'', ''5'', ''1'', ''0'', ''200.00'']])
   = [\<lparr>Name = ''A  B'', Status = ''not out'', Runs = ''10'', Balls = ''5'',
       Fours = ''1'', Sixes = ''0'', StrikeRate = ''200.00''\<rparr>]
   \<and> cleanHTML (Html (plain ''A  B'')) = ''A B''
   \<and> cleanHTML ''A  B'' \<noteq> ''A  B''"
  by code_simp

section \<open>Properties of the rate-limited fetcher\<close>


lemma makeRequest_result:
  "fst (makeRequest env url w) = httpGet env (requests w) url"
  by (simp add: makeRequest_def Let_def)





section \<open>Properties of the resolver and of the application\<close>

lemma GetScorecard_fails:
  "isl (fst (GetScorecard env matchID w)) \<longleftrightarrow>
     (case fst (makeRequest env (CricbuzzMatchScorecardAPI @ decimal (unat matchID)) w) of
        Inl err \<Rightarrow> True
      | Inr body \<Rightarrow> isl (newDocument env body))"
  by (auto simp: GetScorecard_def Let_def split: prod.splits sum.splits)

text \<open>
  C5: \<open>GetMatchInfo\<close> returns an error exactly when the summary fetch or the decoding
  of the summary fails. When both succeed and the scorecard fetch or the parsing of the
  scorecard fails, it returns a MatchInfo with an empty scorecard and no error.
\<close>

theorem GetMatchInfo_errors:
  "(isl (fst (GetMatchInfo env matchID w)) \<longleftrightarrow>
      (case fst (makeRequest env (CricbuzzMatchAPI @ decimal (unat matchID)) w) of
         Inl err \<Rightarrow> True
       | Inr body \<Rightarrow> isl (jsonDecode env body)))
   \<and> (\<forall>body w1 cricbuzzJSON.
        makeRequest env (CricbuzzMatchAPI @ decimal (unat matchID)) w = (Inr body, w1)
        \<and> jsonDecode env body = Inr cricbuzzJSON
        \<and> (case fst (makeRequest env (CricbuzzMatchScorecardAPI @ decimal (unat matchID)) w1) of
              Inl err \<Rightarrow> True
            | Inr sbody \<Rightarrow> isl (newDocument env sbody))
        \<longrightarrow> GetMatchInfo env matchID w =
              (Inr \<lparr>CricbuzzMatchID = matchID,
                    CricbuzzMatchAPILink = CricbuzzMatchAPI @ decimal (unat matchID),
                    MatchShortName = [],
                    CricbuzzInfo = cricbuzzJSON,
                    Scorecard = [],
                    LastUpdated = 0\<rparr>,
               snd (GetScorecard env matchID w1)))"
proof (intro conjI allI impI)
  show "isl (fst (GetMatchInfo env matchID w)) \<longleftrightarrow>
      (case fst (makeRequest env (CricbuzzMatchAPI @ decimal (unat matchID)) w) of
         Inl err \<Rightarrow> True
       | Inr body \<Rightarrow> isl (jsonDecode env body))"
    by (auto simp: GetMatchInfo_def Let_def split: prod.splits sum.splits)
next
  fix body w1 cricbuzzJSON
  assume a: "makeRequest env (CricbuzzMatchAPI @ decimal (unat matchID)) w = (Inr body, w1)
        \<and> jsonDecode env body = Inr cricbuzzJSON
        \<and> (case fst (makeRequest env (CricbuzzMatchScorecardAPI @ decimal (unat matchID)) w1) of
              Inl err \<Rightarrow> True
            | Inr sbody \<Rightarrow> isl (newDocument env sbody))"
  then have "isl (fst (GetScorecard env matchID w1))"
    by (simp add: GetScorecard_fails)
  then obtain err w2 where "GetScorecard env matchID w1 = (Inl err, w2)"
    by (cases "GetScorecard env matchID w1") (auto simp: isl_def)
  with a show "GetMatchInfo env matchID w =
              (Inr \<lparr>CricbuzzMatchID = matchID,
                    CricbuzzMatchAPILink = CricbuzzMatchAPI @ decimal (unat matchID),
                    MatchShortName = [],
                    CricbuzzInfo = cricbuzzJSON,
                    Scorecard = [],
                    LastUpdated = 0\<rparr>,
               snd (GetScorecard env matchID w1))"
    by (simp add: GetMatchInfo_def Let_def)
qed

lemma example_summary:
  "makeRequest exampleEnv url exampleWorld
   = (Inr url, \<lparr>now = 5000000000, lastRequest = 5000000000, requests = Suc 0\<rparr>)"
  by (simp add: makeRequest_def exampleEnv_def exampleWorld_def requestInterval_def)

lemma example_request:
  "makeRequest exampleEnv url \<lparr>now = t, lastRequest = t, requests = n\<rparr>
   = (if n = Suc 0 then Inl (Transport ''timeout'') else Inr url,
      \<lparr>now = t + 1000000000, lastRequest = t + 1000000000, requests = Suc n\<rparr>)"
  by (simp add: makeRequest_def exampleEnv_def requestInterval_def Let_def)

lemma example_decode: "jsonDecode exampleEnv body = Inr body"
  by (simp add: exampleEnv_def)

lemma example_GetMatchInfo:
  "GetMatchInfo exampleEnv 42 exampleWorld =
     (Inr \<lparr>CricbuzzMatchID = 42,
           CricbuzzMatchAPILink = CricbuzzMatchAPI @ decimal (unat (42 :: 32 word)),
           MatchShortName = [],
           CricbuzzInfo = CricbuzzMatchAPI @ decimal (unat (42 :: 32 word)),
           Scorecard = [],
           LastUpdated = 0\<rparr>,
      \<lparr>now = 6000000000, lastRequest = 6000000000, requests = 2\<rparr>)"
  by (simp add: GetMatchInfo_def GetScorecard_def example_summary example_request example_decode Let_def)

theorem GetMatchInfo_errors_witness:
  "makeRequest exampleEnv (CricbuzzMatchAPI @ decimal (unat (42 :: 32 word))) exampleWorld
   = (Inr (CricbuzzMatchAPI @ decimal (unat (42 :: 32 word))),
      \<lparr>now = 5000000000, lastRequest = 5000000000, requests = 1\<rparr>)
   \<and> jsonDecode exampleEnv (CricbuzzMatchAPI @ decimal (unat (42 :: 32 word)))
     = Inr (CricbuzzMatchAPI @ decimal (unat (42 :: 32 word)))
   \<and> fst (makeRequest exampleEnv (CricbuzzMatchScorecardAPI @ decimal (unat (42 :: 32 word)))
          \<lparr>now = 5000000000, lastRequest = 5000000000, requests = 1\<rparr>)
     = Inl (Transport ''timeout'')
   \<and> \<not> isl (fst (GetMatchInfo exampleEnv 42 exampleWorld))
   \<and> fst (GetMatchInfo exampleEnv 42 exampleWorld) =
       Inr \<lparr>CricbuzzMatchID = 42,
            CricbuzzMatchAPILink = CricbuzzMatchAPI @ decimal (unat (42 :: 32 word)),
            MatchShortName = [],
            CricbuzzInfo = CricbuzzMatchAPI @ decimal (unat (42 :: 32 word)),
            Scorecard = [],
            LastUpdated = 0\<rparr>"
proof -
  let ?url = "CricbuzzMatchAPI @ decimal (unat (42 :: 32 word))"
  let ?w1 = "\<lparr>now = 5000000000, lastRequest = 5000000000, requests = 1\<rparr>"
  have h2: "jsonDecode exampleEnv ?url = Inr ?url"
    by (simp add: exampleEnv_def)
  have h3: "fst (makeRequest exampleEnv (CricbuzzMatchScorecardAPI @ decimal (unat (42 :: 32 word))) ?w1)
     = Inl (Transport ''timeout'')"
    by (simp add: example_request)
  have h1: "makeRequest exampleEnv ?url exampleWorld = (Inr ?url, ?w1)"
    by (simp add: example_summary)
  from GetMatchInfo_errors[of exampleEnv 42 exampleWorld] h1 h2 h3
  have "GetMatchInfo exampleEnv 42 exampleWorld =
              (Inr \<lparr>CricbuzzMatchID = 42,
                    CricbuzzMatchAPILink = ?url,
                    MatchShortName = [],
                    CricbuzzInfo = ?url,
                    Scorecard = [],
                    LastUpdated = 0\<rparr>,
               snd (GetScorecard exampleEnv 42 ?w1))"
    by simp
  with h1 h2 h3 show ?thesis by simp
qed

lemma update_single: "length xs = Suc 0 \<Longrightarrow> xs[0 := y] = [y]"
  by (cases xs) auto

text \<open>
  C6: a call of \<open>UpdateMatches\<close> that returns an error leaves the application, and so
  its snapshot \<open>Matches\<close>, as it was, in both modes; a call that succeeds replaces the
  snapshot by the records of the fresh fetch.
\<close>

theorem UpdateMatches_all_or_nothing:
  "(\<forall>err a' w'. UpdateMatches env a w = (Some err, a', w') \<longrightarrow> a' = a \<and> Matches a' = Matches a)
   \<and> (\<forall>a' w'. UpdateMatches env a w = (None, a', w') \<longrightarrow>
        (if length (Matches a) = 1
         then \<exists>fresh. GetMatchInfo env (CricbuzzMatchID (Matches a ! 0)) w = (Inr fresh, w')
                \<and> Matches a' =
                    [fresh\<lparr>MatchShortName := MatchShortName (Matches a ! 0), LastUpdated := now w'\<rparr>]
         else \<exists>fresh. GetAllLiveMatches env w = (Inr fresh, w')
                \<and> Matches a' = map (\<lambda>m. m\<lparr>LastUpdated := now w'\<rparr>) fresh))"
proof -
  show ?thesis
    by (auto simp: UpdateMatches_def Let_def update_single split: prod.splits sum.splits if_splits)
qed

theorem UpdateMatches_all_or_nothing_witness:
  "UpdateMatches exampleEnv \<lparr>Matches = [exampleMatch]\<rparr>
     \<lparr>now = 5000000000, lastRequest = 5000000000, requests = 1\<rparr>
   = (Some (Wrapped ''failed to fetch match info'' (Transport ''timeout'')),
      \<lparr>Matches = [exampleMatch]\<rparr>,
      \<lparr>now = 6000000000, lastRequest = 6000000000, requests = 2\<rparr>)"
proof -
  let ?a = "\<lparr>Matches = [exampleMatch]\<rparr> :: string App"
  let ?w = "\<lparr>now = 5000000000, lastRequest = 5000000000, requests = 1\<rparr>"
  have ev: "fst (UpdateMatches exampleEnv ?a ?w)
              = Some (Wrapped ''failed to fetch match info'' (Transport ''timeout''))"
       "snd (snd (UpdateMatches exampleEnv ?a ?w))
              = \<lparr>now = 6000000000, lastRequest = 6000000000, requests = 2\<rparr>"
    by (simp_all add: UpdateMatches_def GetMatchInfo_def example_request Let_def)
  from UpdateMatches_all_or_nothing[of exampleEnv ?a ?w] ev
  have "fst (snd (UpdateMatches exampleEnv ?a ?w)) = ?a"
    by (cases "UpdateMatches exampleEnv ?a ?w") auto
  with ev show ?thesis
    by (cases "UpdateMatches exampleEnv ?a ?w") auto
qed

text \<open>
  C10: in single-match mode, a successful \<open>UpdateMatches\<close> keeps the short name of the
  previous record; every other field of the new record is the field of the freshly
  fetched record, and \<open>LastUpdated\<close> is the time read after the fetch.
\<close>

theorem single_match_keeps_short_name:
  assumes "length (Matches a) = 1"
    and "UpdateMatches env a w = (None, a', w')"
  shows "\<exists>fresh. GetMatchInfo env (CricbuzzMatchID (Matches a ! 0)) w = (Inr fresh, w')
     \<and> Matches a' =
        [\<lparr>CricbuzzMatchID = CricbuzzMatchID fresh,
          CricbuzzMatchAPILink = CricbuzzMatchAPILink fresh,
          MatchShortName = MatchShortName (Matches a ! 0),
          CricbuzzInfo = CricbuzzInfo fresh,
          Scorecard = Scorecard fresh,
          LastUpdated = now w'\<rparr>]"
proof -
  from assms(1) obtain old where old: "Matches a = [old]" by (cases "Matches a") auto
  from assms obtain fresh where
    f: "GetMatchInfo env (CricbuzzMatchID (Matches a ! 0)) w = (Inr fresh, w')"
    and m: "a' = a\<lparr>Matches := (Matches a)[0 := fresh\<lparr>MatchShortName := MatchShortName (Matches a ! 0),
                                                    LastUpdated := now w'\<rparr>]\<rparr>"
    by (auto simp: UpdateMatches_def Let_def split: prod.splits sum.splits)
  from m old have "Matches a' = [fresh\<lparr>MatchShortName := MatchShortName old, LastUpdated := now w'\<rparr>]"
    by simp
  also have "\<dots> = [\<lparr>CricbuzzMatchID = CricbuzzMatchID fresh,
          CricbuzzMatchAPILink = CricbuzzMatchAPILink fresh,
          MatchShortName = MatchShortName old,
          CricbuzzInfo = CricbuzzInfo fresh,
          Scorecard = Scorecard fresh,
          LastUpdated = now w'\<rparr>]"
    by (cases fresh) simp
  finally show ?thesis using f old by auto
qed

theorem single_match_keeps_short_name_witness:
  "UpdateMatches exampleEnv \<lparr>Matches = [exampleMatch]\<rparr> exampleWorld
   = (None,
      \<lparr>Matches =
         [\<lparr>CricbuzzMatchID = 42,
           CricbuzzMatchAPILink = CricbuzzMatchAPI @ decimal (unat (42 :: 32 word)),
           MatchShortName = ''IND vs AUS'',
           CricbuzzInfo = CricbuzzMatchAPI @ decimal (unat (42 :: 32 word)),
           Scorecard = [],
           LastUpdated = 6000000000\<rparr>]\<rparr>,
      \<lparr>now = 6000000000, lastRequest = 6000000000, requests = 2\<rparr>)
   \<and> MatchShortName exampleMatch = ''IND vs AUS''"
proof -
  let ?a = "\<lparr>Matches = [exampleMatch]\<rparr> :: string App"
  have id: "CricbuzzMatchID exampleMatch = 42" and nm: "MatchShortName exampleMatch = ''IND vs AUS''"
    by (simp_all add: exampleMatch_def)
  have l: "length (Matches ?a) = 1" by simp
  have ev: "UpdateMatches exampleEnv ?a exampleWorld
      = (None, fst (snd (UpdateMatches exampleEnv ?a exampleWorld)),
         \<lparr>now = 6000000000, lastRequest = 6000000000, requests = 2\<rparr>)"
    by (simp add: UpdateMatches_def id example_GetMatchInfo Let_def)
  from single_match_keeps_short_name[OF l ev] id nm example_GetMatchInfo
  have "Matches (fst (snd (UpdateMatches exampleEnv ?a exampleWorld))) =
         [\<lparr>CricbuzzMatchID = 42,
           CricbuzzMatchAPILink = CricbuzzMatchAPI @ decimal (unat (42 :: 32 word)),
           MatchShortName = ''IND vs AUS'',
           CricbuzzInfo = CricbuzzMatchAPI @ decimal (unat (42 :: 32 word)),
           Scorecard = [],
           LastUpdated = 6000000000\<rparr>]"
    by auto
  then have "fst (snd (UpdateMatches exampleEnv ?a exampleWorld)) = \<lparr>Matches =
         [\<lparr>CricbuzzMatchID = 42,
           CricbuzzMatchAPILink = CricbuzzMatchAPI @ decimal (unat (42 :: 32 word)),
           MatchShortName = ''IND vs AUS'',
           CricbuzzInfo = CricbuzzMatchAPI @ decimal (unat (42 :: 32 word)),
           Scorecard = [],
           LastUpdated = 6000000000\<rparr>]\<rparr>"
    by (cases "fst (snd (UpdateMatches exampleEnv ?a exampleWorld))") simp
  with ev nm show ?thesis by simp
qed

section \<open>Properties of the discovery\<close>

lemma Split_first:
  "Split s c = takeWhile (\<lambda>x. x \<noteq> c) s #
     (case dropWhile (\<lambda>x. x \<noteq> c) s of [] \<Rightarrow> [] | y # r \<Rightarrow> Split r c)"
  by (induction s) (auto split: list.splits)

lemma Split_parts:
  "Split s c ! 0 = takeWhile (\<lambda>x. x \<noteq> c) s"
  "2 \<le> length (Split s c) \<longleftrightarrow> c \<in> set s"
  "c \<in> set s \<Longrightarrow> Split s c ! 1 = takeWhile (\<lambda>x. x \<noteq> c) (drop 1 (dropWhile (\<lambda>x. x \<noteq> c) s))"
proof -
  show "Split s c ! 0 = takeWhile (\<lambda>x. x \<noteq> c) s"
    by (subst Split_first) simp
  have d: "c \<in> set s \<longleftrightarrow> dropWhile (\<lambda>x. x \<noteq> c) s \<noteq> []"
    by auto
  have ne: "\<And>r. Split r c \<noteq> []"
    by (subst Split_first) simp
  show "2 \<le> length (Split s c) \<longleftrightarrow> c \<in> set s"
  proof (cases "dropWhile (\<lambda>x. x \<noteq> c) s")
    case Nil
    with d have "c \<notin> set s" by simp
    then show ?thesis by (subst Split_first) (simp add: Nil)
  next
    case (Cons y r)
    with ne[of r] d show ?thesis
      by (subst Split_first) (simp add: Suc_le_eq)
  qed
  show "Split s c ! 1 = takeWhile (\<lambda>x. x \<noteq> c) (drop 1 (dropWhile (\<lambda>x. x \<noteq> c) s))" if "c \<in> set s"
  proof (cases "dropWhile (\<lambda>x. x \<noteq> c) s")
    case Nil
    with that d show ?thesis by simp
  next
    case (Cons y r)
    have "Split s c ! 1 = Split r c ! 0"
      by (subst Split_first) (simp add: Cons)
    also have "\<dots> = takeWhile (\<lambda>x. x \<noteq> c) r"
      by (subst Split_first) simp
    finally show ?thesis using Cons by (simp add: drop_Suc)
  qed
qed

lemma liveAnchor_acc:
  "liveAnchor env (ms, w) s =
     (ms @ fst (liveAnchor env ([], w) s), snd (liveAnchor env ([], w) s))"
  by (simp add: liveAnchor_def Let_def split: option.splits prod.splits sum.splits)

lemma foldl_liveAnchor_acc:
  "foldl (liveAnchor env) (ms, w) xs =
     (ms @ fst (foldl (liveAnchor env) ([], w) xs), snd (foldl (liveAnchor env) ([], w) xs))"
proof (induction xs arbitrary: ms w)
  case (Cons s xs)
  obtain m1 w1 where s: "liveAnchor env ([], w) s = (m1, w1)"
    by (cases "liveAnchor env ([], w) s")
  have a: "liveAnchor env (ms, w) s = (ms @ m1, w1)"
    by (subst liveAnchor_acc) (simp add: s)
  have b: "foldl (liveAnchor env) (ms @ m1, w1) xs =
      ((ms @ m1) @ fst (foldl (liveAnchor env) ([], w1) xs), snd (foldl (liveAnchor env) ([], w1) xs))"
    by (rule Cons)
  have c: "foldl (liveAnchor env) (m1, w1) xs =
      (m1 @ fst (foldl (liveAnchor env) ([], w1) xs), snd (foldl (liveAnchor env) ([], w1) xs))"
    by (rule Cons)
  show ?case
    by (simp add: a s b c)
qed simp

lemma liveAnchor_on_text:
  assumes "TrimSpace (Text s) \<noteq> []" and "TrimSpace (Text s) \<noteq> ''MATCHES''"
  shows "liveAnchor env (matches, w) s =
     (let text = TrimSpace (Text s);
          name = takeWhile (\<lambda>c. c \<noteq> CHR ''-'') text;
          state = takeWhile (\<lambda>c. c \<noteq> CHR ''-'') (drop 1 (dropWhile (\<lambda>c. c \<noteq> CHR ''-'') text))
      in if CHR ''-'' \<in> set text \<and> TrimSpace state = ''Live'' then
           (case Attr s ''href'' of
              None \<Rightarrow> (matches, w)
            | Some href \<Rightarrow>
                if length (Split href CHR ''/'') < 3 then (matches, w)
                else
                  (case ParseUint32 (Split href CHR ''/'' ! 2) of
                     None \<Rightarrow> (matches, w)
                   | Some matchID \<Rightarrow>
                       (case GetMatchInfo env matchID w of
                          (Inl err, w') \<Rightarrow> (matches, w')
                        | (Inr matchInfo, w') \<Rightarrow>
                            (matches @ [matchInfo\<lparr>MatchShortName := TrimSpace name\<rparr>], w'))))
         else (matches, w))"
proof (cases "CHR ''-'' \<in> set (TrimSpace (Text s))")
  case True
  with assms Split_parts(2)[of "TrimSpace (Text s)" "CHR ''-''"] show ?thesis
    by (simp add: liveAnchor_def Let_def Split_parts(1,3) del: One_nat_def split: option.splits prod.splits sum.splits)
next
  case False
  with assms Split_parts(2)[of "TrimSpace (Text s)" "CHR ''-''"] show ?thesis
    by (simp add: liveAnchor_def Let_def split: option.splits)
qed

lemma GetAllLiveMatches_scan:
  assumes "makeRequest env CricbuzzURL w = (Inr body, w0)"
    and "newDocument env body = Inr doc"
    and "navAnchors doc = before @ s # after"
    and "foldl (liveAnchor env) ([], w0) before = (found, w1)"
  shows "GetAllLiveMatches env w =
     (Inr (found @ fst (liveAnchor env ([], w1) s)
             @ fst (foldl (liveAnchor env) ([], snd (liveAnchor env ([], w1) s)) after)),
      snd (foldl (liveAnchor env) ([], snd (liveAnchor env ([], w1) s)) after))"
proof -
  obtain e w2 where s: "liveAnchor env ([], w1) s = (e, w2)"
    by (cases "liveAnchor env ([], w1) s")
  have step: "liveAnchor env (found, w1) s = (found @ e, w2)"
    by (subst liveAnchor_acc) (simp add: s)
  have "foldl (liveAnchor env) ([], w0) (before @ s # after)
        = foldl (liveAnchor env) (found @ e, w2) after"
    by (simp add: assms(4) step)
  also have "\<dots> = ((found @ e) @ fst (foldl (liveAnchor env) ([], w2) after),
                    snd (foldl (liveAnchor env) ([], w2) after))"
    by (rule foldl_liveAnchor_acc)
  finally have "foldl (liveAnchor env) ([], w0) (navAnchors doc)
        = (found @ e @ fst (foldl (liveAnchor env) ([], w2) after),
           snd (foldl (liveAnchor env) ([], w2) after))"
    by (simp add: assms(3))
  with assms(1,2) s show ?thesis
    by (simp add: GetAllLiveMatches_def Let_def)
qed

lemma example_newDocument:
  "newDocument exampleEnv (CricbuzzMatchScorecardAPI @ d) = Inr exampleScorecard"
  "newDocument exampleEnv CricbuzzURL = Inr exampleHomepage"
  by (simp_all add: exampleEnv_def CricbuzzURL_def CricbuzzMatchScorecardAPI_def)

lemma example_toLower: "toLower exampleEnv = asciiLower"
  by (simp add: exampleEnv_def)

lemma example_GetMatchInfo_fails:
  "GetMatchInfo exampleEnv matchID \<lparr>now = t, lastRequest = t, requests = Suc 0\<rparr> =
     (Inl (Wrapped ''failed to fetch match info'' (Transport ''timeout'')),
      \<lparr>now = t + 1000000000, lastRequest = t + 1000000000, requests = Suc (Suc 0)\<rparr>)"
  by (simp add: GetMatchInfo_def example_request Let_def)

lemma example_GetMatchInfo_ok:
  "GetMatchInfo exampleEnv matchID \<lparr>now = t, lastRequest = t, requests = Suc (Suc n)\<rparr> =
     (Inr \<lparr>CricbuzzMatchID = matchID,
           CricbuzzMatchAPILink = CricbuzzMatchAPI @ decimal (unat matchID),
           MatchShortName = [],
           CricbuzzInfo = CricbuzzMatchAPI @ decimal (unat matchID),
           Scorecard = scorecardOf asciiLower exampleScorecard,
           LastUpdated = 0\<rparr>,
      \<lparr>now = t + 2000000000, lastRequest = t + 2000000000, requests = Suc (Suc (Suc (Suc n)))\<rparr>)"
  by (simp add: GetMatchInfo_def GetScorecard_def example_request example_decode
        example_newDocument example_toLower Let_def)

lemma example_trims:
  "TrimSpace ''India - Live'' = ''India - Live''"
  "TrimSpace ''India '' = ''India''"
  "TrimSpace '' Live'' = ''Live''"
  "TrimSpace ''MATCHES'' = ''MATCHES''"
  "TrimSpace ''Aus - Result'' = ''Aus - Result''"
  "TrimSpace '' Result'' = ''Result''"
  "TrimSpace ''Eng - Live - day 2'' = ''Eng - Live - day 2''"
  "TrimSpace ''Eng '' = ''Eng''"
  "TrimSpace '' Live '' = ''Live''"
  "TrimSpace '' Live - day 2'' = ''Live - day 2''"
  by code_simp+

lemma example_ids:
  "ParseUint32 ''123'' = Some 123"
  "ParseUint32 ''77'' = Some 77"
  by (simp_all add: ParseUint32_def digits_def)

text \<open>
  C3 (as amended): for an anchor of the navigation region whose trimmed text is neither
  empty nor the heading label, \<open>GetAllLiveMatches\<close> admits the anchor exactly when
  the text holds a "-" and the piece between the first "-" and the next "-" (or the end
  of the text), trimmed, is "Live", and its link gives a match identifier whose match
  info can be fetched; the entry then stands between the entries of the anchors before
  and after it, and its display name is the piece before the first "-", trimmed.
\<close>

theorem live_anchor_gate:
  assumes "makeRequest env CricbuzzURL w = (Inr body, w0)"
    and "newDocument env body = Inr doc"
    and "navAnchors doc = before @ s # after"
    and "foldl (liveAnchor env) ([], w0) before = (found, w1)"
    and "TrimSpace (Text s) \<noteq> []" and "TrimSpace (Text s) \<noteq> ''MATCHES''"
  shows "GetAllLiveMatches env w =
     (let text = TrimSpace (Text s);
          name = takeWhile (\<lambda>c. c \<noteq> CHR ''-'') text;
          state = takeWhile (\<lambda>c. c \<noteq> CHR ''-'') (drop 1 (dropWhile (\<lambda>c. c \<noteq> CHR ''-'') text));
          admitted =
            (if CHR ''-'' \<in> set text \<and> TrimSpace state = ''Live'' then
               (case Attr s ''href'' of
                  None \<Rightarrow> ([], w1)
                | Some href \<Rightarrow>
                    if length (Split href CHR ''/'') < 3 then ([], w1)
                    else
                      (case ParseUint32 (Split href CHR ''/'' ! 2) of
                         None \<Rightarrow> ([], w1)
                       | Some matchID \<Rightarrow>
                           (case GetMatchInfo env matchID w1 of
                              (Inl err, w') \<Rightarrow> ([], w')
                            | (Inr matchInfo, w') \<Rightarrow>
                                ([matchInfo\<lparr>MatchShortName := TrimSpace name\<rparr>], w'))))
             else ([], w1));
          rest = foldl (liveAnchor env) ([], snd admitted) after
      in (Inr (found @ fst admitted @ fst rest), snd rest))"
proof -
  have "liveAnchor env ([], w1) s =
     (let text = TrimSpace (Text s);
          name = takeWhile (\<lambda>c. c \<noteq> CHR ''-'') text;
          state = takeWhile (\<lambda>c. c \<noteq> CHR ''-'') (drop 1 (dropWhile (\<lambda>c. c \<noteq> CHR ''-'') text))
      in if CHR ''-'' \<in> set text \<and> TrimSpace state = ''Live'' then
               (case Attr s ''href'' of
                  None \<Rightarrow> ([], w1)
                | Some href \<Rightarrow>
                    if length (Split href CHR ''/'') < 3 then ([], w1)
                    else
                      (case ParseUint32 (Split href CHR ''/'' ! 2) of
                         None \<Rightarrow> ([], w1)
                       | Some matchID \<Rightarrow>
                           (case GetMatchInfo env matchID w1 of
                              (Inl err, w') \<Rightarrow> ([], w')
                            | (Inr matchInfo, w') \<Rightarrow>
                                ([matchInfo\<lparr>MatchShortName := TrimSpace name\<rparr>], w'))))
             else ([], w1))"
    using liveAnchor_on_text[OF assms(5,6), of env "[]" w1]
    by (simp add: Let_def split: option.splits prod.splits sum.splits)
  then show ?thesis
    unfolding GetAllLiveMatches_scan[OF assms(1-4)] Let_def by (simp only:)
qed

theorem live_anchor_gate_witness:
  "TrimSpace (Text \<lparr>Text = ''India - Live'', Html = ''India - Live'', Attr = [''href'' \<mapsto> ''/x/123/y'']\<rparr>)
     \<noteq> []
   \<and> TrimSpace (Text \<lparr>Text = ''India - Live'', Html = ''India - Live'', Attr = [''href'' \<mapsto> ''/x/123/y'']\<rparr>)
     \<noteq> ''MATCHES''
   \<and> hd (navAnchors exampleHomepage)
     = \<lparr>Text = ''India - Live'', Html = ''India - Live'', Attr = [''href'' \<mapsto> ''/x/123/y'']\<rparr>
   \<and> GetAllLiveMatches exampleEnv \<lparr>now = 5000000000, lastRequest = 5000000000, requests = 2\<rparr> =
       (Inr [\<lparr>CricbuzzMatchID = 123,
              CricbuzzMatchAPILink = CricbuzzMatchAPI @ decimal (unat (123 :: 32 word)),
              MatchShortName = ''India'',
              CricbuzzInfo = CricbuzzMatchAPI @ decimal (unat (123 :: 32 word)),
              Scorecard = scorecardOf asciiLower exampleScorecard,
              LastUpdated = 0\<rparr>,
             \<lparr>CricbuzzMatchID = 77,
              CricbuzzMatchAPILink = CricbuzzMatchAPI @ decimal (unat (77 :: 32 word)),
              MatchShortName = ''Eng'',
              CricbuzzInfo = CricbuzzMatchAPI @ decimal (unat (77 :: 32 word)),
              Scorecard = scorecardOf asciiLower exampleScorecard,
              LastUpdated = 0\<rparr>],
        \<lparr>now = 10000000000, lastRequest = 10000000000, requests = 7\<rparr>)"
proof -
  let ?india = "\<lparr>Text = ''India - Live'', Html = ''India - Live'', Attr = [''href'' \<mapsto> ''/x/123/y'']\<rparr>"
  let ?after = "[\<lparr>Text = ''MATCHES'', Html = ''MATCHES'', Attr = Map.empty\<rparr>,
         \<lparr>Text = ''Aus - Result'', Html = ''Aus - Result'', Attr = [''href'' \<mapsto> ''/x/1/y'']\<rparr>,
         \<lparr>Text = ''Eng - Live - day 2'', Html = ''Eng - Live - day 2'', Attr = [''href'' \<mapsto> ''/x/77/y'']\<rparr>]"
  let ?start = "\<lparr>now = 5000000000, lastRequest = 5000000000, requests = Suc (Suc 0)\<rparr>"
  let ?home = "\<lparr>now = 6000000000, lastRequest = 6000000000, requests = Suc (Suc (Suc 0))\<rparr>"
  let ?given = "\<lparr>now = 5000000000, lastRequest = 5000000000, requests = 2\<rparr>"
  have w: "?given = \<lparr>now = 5000000000, lastRequest = 5000000000, requests = Suc (Suc 0)\<rparr>"
    by simp
  have a1: "makeRequest exampleEnv CricbuzzURL ?start = (Inr CricbuzzURL, ?home)"
    by (simp add: example_request)
  have a2: "newDocument exampleEnv CricbuzzURL = Inr exampleHomepage"
    by (rule example_newDocument)
  have a3: "navAnchors exampleHomepage = [] @ ?india # ?after"
    by (simp add: exampleHomepage_def)
  have a4: "foldl (liveAnchor exampleEnv) ([], ?home) [] = ([], ?home)"
    by simp
  have a5: "TrimSpace (Text ?india) \<noteq> []" and a6: "TrimSpace (Text ?india) \<noteq> ''MATCHES''"
    by (simp_all add: example_trims)
  from live_anchor_gate[OF a1 a2 a3 a4 a5 a6]
  have "GetAllLiveMatches exampleEnv ?start =
       (Inr [\<lparr>CricbuzzMatchID = 123,
              CricbuzzMatchAPILink = CricbuzzMatchAPI @ decimal (unat (123 :: 32 word)),
              MatchShortName = ''India'',
              CricbuzzInfo = CricbuzzMatchAPI @ decimal (unat (123 :: 32 word)),
              Scorecard = scorecardOf asciiLower exampleScorecard,
              LastUpdated = 0\<rparr>,
             \<lparr>CricbuzzMatchID = 77,
              CricbuzzMatchAPILink = CricbuzzMatchAPI @ decimal (unat (77 :: 32 word)),
              MatchShortName = ''Eng'',
              CricbuzzInfo = CricbuzzMatchAPI @ decimal (unat (77 :: 32 word)),
              Scorecard = scorecardOf asciiLower exampleScorecard,
              LastUpdated = 0\<rparr>],
        \<lparr>now = 10000000000, lastRequest = 10000000000, requests = 7\<rparr>)"
    by (simp add: liveAnchor_def example_trims example_ids example_GetMatchInfo_ok Let_def)
  with a5 a6 a3 show ?thesis unfolding w by simp
qed

text \<open>
  The anchor text "Eng - Live - day 2": what follows its first "-" is not "Live", and
  \<open>GetAllLiveMatches\<close> admits the anchor, under the name "Eng".
\<close>

theorem live_with_suffix_is_admitted:
  "navAnchors exampleHomepage ! 3
     = \<lparr>Text = ''Eng - Live - day 2'', Html = ''Eng - Live - day 2'', Attr = [''href'' \<mapsto> ''/x/77/y'']\<rparr>
   \<and> TrimSpace ''Eng - Live - day 2'' = ''Eng '' @ ''-'' @ '' Live - day 2''
   \<and> CHR ''-'' \<notin> set ''Eng ''
   \<and> TrimSpace '' Live - day 2'' = ''Live - day 2''
   \<and> GetAllLiveMatches exampleEnv exampleWorld =
       (Inr [\<lparr>CricbuzzMatchID = 77,
              CricbuzzMatchAPILink = CricbuzzMatchAPI @ decimal (unat (77 :: 32 word)),
              MatchShortName = ''Eng'',
              CricbuzzInfo = CricbuzzMatchAPI @ decimal (unat (77 :: 32 word)),
              Scorecard = scorecardOf asciiLower exampleScorecard,
              LastUpdated = 0\<rparr>],
        \<lparr>now = 8000000000, lastRequest = 8000000000, requests = 4\<rparr>)"
proof -
  have "GetAllLiveMatches exampleEnv exampleWorld =
       (Inr [\<lparr>CricbuzzMatchID = 77,
              CricbuzzMatchAPILink = CricbuzzMatchAPI @ decimal (unat (77 :: 32 word)),
              MatchShortName = ''Eng'',
              CricbuzzInfo = CricbuzzMatchAPI @ decimal (unat (77 :: 32 word)),
              Scorecard = scorecardOf asciiLower exampleScorecard,
              LastUpdated = 0\<rparr>],
        \<lparr>now = 8000000000, lastRequest = 8000000000, requests = 4\<rparr>)"
    by (simp add: GetAllLiveMatches_def example_summary example_newDocument exampleHomepage_def
          liveAnchor_def example_trims example_ids example_GetMatchInfo_fails
          example_GetMatchInfo_ok Let_def)
  then show ?thesis by (simp add: example_trims exampleHomepage_def)
qed

lemma GetAllLiveMatches_fails:
  "isl (fst (GetAllLiveMatches env w)) \<longleftrightarrow>
     (case fst (makeRequest env CricbuzzURL w) of
        Inl err \<Rightarrow> True
      | Inr body \<Rightarrow> isl (newDocument env body))"
  by (auto simp: GetAllLiveMatches_def Let_def split: prod.splits sum.splits)

text \<open>
  C9: when the homepage has been fetched and parsed and the nested \<open>GetMatchInfo\<close> of an
  admitted live anchor fails, the anchor adds no entry and the scan goes on with the
  anchors after it; \<open>GetAllLiveMatches\<close> returns the entries found before and after
  it, and no error.
\<close>

theorem failed_entry_is_skipped:
  assumes "makeRequest env CricbuzzURL w = (Inr body, w0)"
    and "newDocument env body = Inr doc"
    and "navAnchors doc = before @ s # after"
    and "foldl (liveAnchor env) ([], w0) before = (found, w1)"
    and "TrimSpace (Text s) \<noteq> []" and "TrimSpace (Text s) \<noteq> ''MATCHES''"
    and "2 \<le> length (Split (TrimSpace (Text s)) CHR ''-'')"
    and "TrimSpace (Split (TrimSpace (Text s)) CHR ''-'' ! 1) = ''Live''"
    and "Attr s ''href'' = Some href"
    and "3 \<le> length (Split href CHR ''/'')"
    and "ParseUint32 (Split href CHR ''/'' ! 2) = Some matchID"
    and "GetMatchInfo env matchID w1 = (Inl err, w2)"
  shows "liveAnchor env (found, w1) s = (found, w2)
    \<and> GetAllLiveMatches env w =
        (Inr (found @ fst (foldl (liveAnchor env) ([], w2) after)),
         snd (foldl (liveAnchor env) ([], w2) after))"
proof -
  from assms(5-12) have step: "liveAnchor env (found, w1) s = (found, w2)"
    by (simp add: liveAnchor_def Let_def)
  have "foldl (liveAnchor env) ([], w0) (before @ s # after)
        = foldl (liveAnchor env) (found, w2) after"
    by (simp add: assms(4) step)
  also have "\<dots> = (found @ fst (foldl (liveAnchor env) ([], w2) after),
                    snd (foldl (liveAnchor env) ([], w2) after))"
    by (rule foldl_liveAnchor_acc)
  finally have "foldl (liveAnchor env) ([], w0) (navAnchors doc)
        = (found @ fst (foldl (liveAnchor env) ([], w2) after),
           snd (foldl (liveAnchor env) ([], w2) after))"
    by (simp add: assms(3))
  with assms(1,2) step show ?thesis
    by (simp add: GetAllLiveMatches_def Let_def)
qed

theorem failed_entry_is_skipped_witness:
  "GetMatchInfo exampleEnv 123 \<lparr>now = 5000000000, lastRequest = 5000000000, requests = 1\<rparr>
     = (Inl (Wrapped ''failed to fetch match info'' (Transport ''timeout'')),
        \<lparr>now = 6000000000, lastRequest = 6000000000, requests = 2\<rparr>)
   \<and> GetAllLiveMatches exampleEnv exampleWorld =
       (Inr [\<lparr>CricbuzzMatchID = 77,
              CricbuzzMatchAPILink = CricbuzzMatchAPI @ decimal (unat (77 :: 32 word)),
              MatchShortName = ''Eng'',
              CricbuzzInfo = CricbuzzMatchAPI @ decimal (unat (77 :: 32 word)),
              Scorecard = scorecardOf asciiLower exampleScorecard,
              LastUpdated = 0\<rparr>],
        \<lparr>now = 8000000000, lastRequest = 8000000000, requests = 4\<rparr>)"
proof -
  let ?india = "\<lparr>Text = ''India - Live'', Html = ''India - Live'', Attr = [''href'' \<mapsto> ''/x/123/y'']\<rparr>"
  let ?after = "[\<lparr>Text = ''MATCHES'', Html = ''MATCHES'', Attr = Map.empty\<rparr>,
         \<lparr>Text = ''Aus - Result'', Html = ''Aus - Result'', Attr = [''href'' \<mapsto> ''/x/1/y'']\<rparr>,
         \<lparr>Text = ''Eng - Live - day 2'', Html = ''Eng - Live - day 2'', Attr = [''href'' \<mapsto> ''/x/77/y'']\<rparr>]"
  let ?w0 = "\<lparr>now = 5000000000, lastRequest = 5000000000, requests = Suc 0\<rparr>"
  let ?w2 = "\<lparr>now = 6000000000, lastRequest = 6000000000, requests = Suc (Suc 0)\<rparr>"
  have a1: "makeRequest exampleEnv CricbuzzURL exampleWorld = (Inr CricbuzzURL, ?w0)"
    by (rule example_summary)
  have a2: "newDocument exampleEnv CricbuzzURL = Inr exampleHomepage"
    by (rule example_newDocument)
  have a3: "navAnchors exampleHomepage = [] @ ?india # ?after"
    by (simp add: exampleHomepage_def)
  have a4: "foldl (liveAnchor exampleEnv) ([], ?w0) [] = ([], ?w0)"
    by simp
  have a5: "TrimSpace (Text ?india) \<noteq> []" and a6: "TrimSpace (Text ?india) \<noteq> ''MATCHES''"
    and a7: "2 \<le> length (Split (TrimSpace (Text ?india)) CHR ''-'')"
    and a8: "TrimSpace (Split (TrimSpace (Text ?india)) CHR ''-'' ! 1) = ''Live''"
    by (simp_all add: example_trims)
  have a9: "Attr ?india ''href'' = Some ''/x/123/y''"
    by simp
  have a10: "3 \<le> length (Split ''/x/123/y'' CHR ''/'')"
    and a11: "ParseUint32 (Split ''/x/123/y'' CHR ''/'' ! 2) = Some 123"
    by (simp_all add: example_ids)
  have a12: "GetMatchInfo exampleEnv 123 ?w0 =
     (Inl (Wrapped ''failed to fetch match info'' (Transport ''timeout'')), ?w2)"
    using example_GetMatchInfo_fails[of 123 5000000000] by simp
  have rest: "foldl (liveAnchor exampleEnv) ([], ?w2) ?after =
       ([\<lparr>CricbuzzMatchID = 77,
              CricbuzzMatchAPILink = CricbuzzMatchAPI @ decimal (unat (77 :: 32 word)),
              MatchShortName = ''Eng'',
              CricbuzzInfo = CricbuzzMatchAPI @ decimal (unat (77 :: 32 word)),
              Scorecard = scorecardOf asciiLower exampleScorecard,
              LastUpdated = 0\<rparr>],
        \<lparr>now = 8000000000, lastRequest = 8000000000, requests = 4\<rparr>)"
    by (simp add: liveAnchor_def example_trims example_ids example_GetMatchInfo_ok Let_def)
  from failed_entry_is_skipped[OF a1 a2 a3 a4 a5 a6 a7 a8 a9 a10 a11 a12] rest a12
  show ?thesis by simp
qed

end
